theory Spec2Isabelle
  imports Complex_Main "HOL-Library.Word" "HOL-Library.Sublist" "HOL-Library.Multiset"
begin

section \<open>Numbers\<close>

text \<open>
  A JavaScript \<open>number\<close> is modelled as a real: the arithmetic of the source is kept
  operation by operation, the rounding of IEEE doubles is not modelled.  Non-finite values
  are modelled explicitly by the type \<open>sample\<close> below where the code tests for them.
  \<open>Math.round\<close> rounds to the nearest integer, a half upwards.
\<close>

definition js_round :: "real \<Rightarrow> int" where
  "js_round v = \<lfloor>v + 1 / 2\<rfloor>"

text \<open>\<open>const clamp = (value, min = 0, max = 1) => Math.min(max, Math.max(min, value))\<close>\<close>

definition clamp :: "real \<Rightarrow> real \<Rightarrow> real \<Rightarrow> real" where
  "clamp v mn mx = min mx (max mn v)"

abbreviation clamp01 :: "real \<Rightarrow> real" where
  "clamp01 v \<equiv> clamp v 0 1"


section \<open>Typed arrays and raster loops\<close>

text \<open>
  A \<open>Uint8Array\<close> or \<open>Uint8ClampedArray\<close> is a list of bytes.  Reading a typed array
  outside its length gives \<open>undefined\<close>, which is falsy; a store outside its length is
  dropped, which is what \<open>xs[i := v]\<close> does.
\<close>

type_synonym uint8 = "8 word"

definition truthy_at :: "uint8 list \<Rightarrow> nat \<Rightarrow> bool" where
  "truthy_at msk i \<longleftrightarrow> i < length msk \<and> msk ! i \<noteq> 0"

text \<open>The number of set (non-zero) entries of a mask.\<close>

definition popcount :: "uint8 list \<Rightarrow> nat" where
  "popcount img = length (filter (\<lambda>v. v \<noteq> 0) img)"

definition bit_of :: "bool \<Rightarrow> uint8" where
  "bit_of c = (if c then 1 else 0)"

text \<open>
  The raster loop \<open>for (y = 0; y < height; y++) for (x = 0; x < width; x++)
  out[y * width + x] = f(x, y)\<close>, where \<open>f\<close> reads its source arrays only.
\<close>

definition raster_fill :: "'a list \<Rightarrow> nat \<Rightarrow> nat \<Rightarrow> (nat \<Rightarrow> nat \<Rightarrow> 'a) \<Rightarrow> 'a list" where
  "raster_fill out width height f =
     foldl (\<lambda>out y. foldl (\<lambda>out x. out[y * width + x := f x y]) out [0..<width]) out [0..<height]"

text \<open>
  The taps of a square window, in the order the loops visit them:
  \<open>for (dy = -radius; dy <= radius; dy++) { yy = y + dy; if (yy < 0 || yy >= height) continue;
  for (dx = -radius; dx <= radius; dx++) { xx = x + dx; if (xx < 0 || xx >= width) continue; ... } }\<close>
\<close>

definition window_taps :: "nat \<Rightarrow> nat \<Rightarrow> int \<Rightarrow> nat \<Rightarrow> nat \<Rightarrow> (nat \<times> nat) list" where
  "window_taps width height radius x y =
     concat (map (\<lambda>dy. let yy = int y + dy in
                    if yy < 0 \<or> yy \<ge> int height then []
                    else concat (map (\<lambda>dx. let xx = int x + dx in
                                   if xx < 0 \<or> xx \<ge> int width then [] else [(nat xx, nat yy)])
                                 [- radius..radius]))
                 [- radius..radius])"

section \<open>Segmentation (analysis.ts)\<close>

datatype Algorithm = Otsu | Kmeans | Adaptive | IsolationForest | Lof | Pca

datatype SpeckleKind = NoFilter | Lee | Kuan | Frost

record PostProcessOptions =
  openingRadius :: int
  closingRadius :: int
  fillHoles_opt :: bool
  minBlobArea :: int

text \<open>
  An optional field is an \<open>option\<close>.  \<open>isolationTrees\<close> is never read by the code and
  is left out.  Cluster and iteration counts are whole numbers.
\<close>

record ChangeDetectionOptions =
  algorithm :: Algorithm
  kmeansClusters :: "nat option"
  kmeansIterations :: "nat option"
  contamination :: "real option"
  otsuManualThreshold :: "real option"
  speckleFilter :: "SpeckleKind option"
  speckleSize :: "real option"
  postProcess :: PostProcessOptions

subsection \<open>otsuThreshold\<close>

text \<open>\<open>histogram = new Array(256).fill(0); values.forEach(v => histogram[v] += 1)\<close>\<close>

definition histogram_of :: "uint8 list \<Rightarrow> nat list" where
  "histogram_of values = foldl (\<lambda>h v. h[unat v := h ! unat v + 1]) (replicate 256 0) values"

text \<open>
  The main loop of \<open>otsuThreshold\<close>, entered at bin \<open>i\<close> with the running values of
  \<open>sumB\<close>, \<open>wB\<close>, \<open>varMax\<close> and \<open>threshold\<close>: \<open>continue\<close> while no pixel lies at or
  below the bin, \<open>break\<close> once none lies above it.
\<close>

function otsu_loop ::
  "nat list \<Rightarrow> nat \<Rightarrow> nat \<Rightarrow> nat \<Rightarrow> nat \<Rightarrow> nat \<Rightarrow> real \<Rightarrow> nat \<Rightarrow> nat" where
  "otsu_loop histogram ntotal sumAll i sumB wB varMax threshold =
     (if i < 256 then
        (let wB = wB + histogram ! i in
         if wB = 0 then otsu_loop histogram ntotal sumAll (i + 1) sumB wB varMax threshold
         else
           (let wF = ntotal - wB in
            if wF = 0 then threshold
            else
              (let sumB = sumB + i * histogram ! i;
                   mB = real sumB / real wB;
                   mF = (real sumAll - real sumB) / real wF;
                   variance = real wB * real wF * (mB - mF) * (mB - mF)
               in if variance > varMax
                  then otsu_loop histogram ntotal sumAll (i + 1) sumB wB variance i
                  else otsu_loop histogram ntotal sumAll (i + 1) sumB wB varMax threshold)))
      else threshold)"
  by pat_completeness auto
termination
  by (relation "measure (\<lambda>(histogram, ntotal, sumAll, i, sumB, wB, varMax, threshold). 256 - i)") auto

definition otsuThreshold :: "uint8 list \<Rightarrow> nat" where
  "otsuThreshold values =
     (let histogram = histogram_of values;
          ntotal = length values;
          sumAll = foldl (\<lambda>s i. s + i * histogram ! i) 0 [0..<256]
      in otsu_loop histogram ntotal sumAll 0 0 0 0 0)"

subsection \<open>kmeans1D\<close>

text \<open>
  The nearest centre of one value: \<open>minDist\<close> starts at \<open>+Infinity\<close> (\<open>None\<close>) and
  \<open>idx\<close> at 0; a centre replaces the current one only when strictly nearer.
\<close>

definition nearest_center :: "real list \<Rightarrow> real \<Rightarrow> nat" where
  "nearest_center centers v =
     snd (foldl (\<lambda>(minDist, idx) c.
                   let dist = \<bar>v - centers ! c\<bar> in
                   if (case minDist of None \<Rightarrow> True | Some m \<Rightarrow> dist < m)
                   then (Some dist, c) else (minDist, idx))
                (None, 0) [0..<length centers])"

text \<open>
  One iteration: every label is stored into a \<open>Uint8Array\<close> (so it is reduced modulo 256),
  then each centre with at least one member becomes the mean of its members.
\<close>

definition kmeans_iteration :: "uint8 list \<Rightarrow> real list \<Rightarrow> real list \<times> uint8 list" where
  "kmeans_iteration values centers =
     (let labels = map (\<lambda>v. (of_nat (nearest_center centers (real (unat v))) :: uint8)) values;
          csums = map (\<lambda>c. sum_list (map (\<lambda>(v, l). if unat l = c then real (unat v) else 0)
                                       (zip values labels))) [0..<length centers];
          counts = map (\<lambda>c. length (filter (\<lambda>l. unat l = c) labels)) [0..<length centers]
      in (map (\<lambda>c. if counts ! c \<noteq> 0 then csums ! c / real (counts ! c) else centers ! c)
              [0..<length centers],
          labels))"

fun kmeans_iterate :: "nat \<Rightarrow> uint8 list \<Rightarrow> real list \<times> uint8 list \<Rightarrow> real list \<times> uint8 list" where
  "kmeans_iterate 0 values state = state"
| "kmeans_iterate (Suc k) values (centers, labels) =
     kmeans_iterate k values (kmeans_iteration values centers)"

text \<open>
  On an empty array the initial centres are \<open>undefined\<close>; no label is then computed and
  the result of every caller is the empty mask.
\<close>

definition kmeans1D :: "uint8 list \<Rightarrow> nat \<Rightarrow> nat \<Rightarrow> real list \<times> uint8 list" where
  "kmeans1D values clusters iterations =
     (let n = length values;
          step = max 1 (n div clusters);
          centers = map (\<lambda>i. real (unat (values ! (min (n - 1) (i * step))))) [0..<clusters]
      in kmeans_iterate iterations values (centers, replicate n 0))"

subsection \<open>localAverage\<close>

text \<open>
  The mean over the window of a pixel.  A tap beyond the end of \<open>values\<close> reads
  \<open>undefined\<close> and turns the sum into \<open>NaN\<close>, written \<open>None\<close>: every comparison with it
  is false.  Entries never written keep the 0 of the fresh \<open>Float32Array\<close>.
\<close>

definition localAverage :: "uint8 list \<Rightarrow> nat \<Rightarrow> nat \<Rightarrow> int \<Rightarrow> real option list" where
  "localAverage values width height radius =
     raster_fill (replicate (length values) (Some 0)) width height
       (\<lambda>x y. let taps = window_taps width height radius x y;
                  count = length taps
              in if count \<noteq> 0
                 then (if list_all (\<lambda>(xx, yy). yy * width + xx < length values) taps
                       then Some (sum_list (map (\<lambda>(xx, yy). real (unat (values ! (yy * width + xx)))) taps)
                                  / real count)
                       else None)
                 else (if y * width + x < length values
                       then Some (real (unat (values ! (y * width + x)))) else None))"

definition exceeds :: "real \<Rightarrow> real option \<Rightarrow> real \<Rightarrow> bool" where
  "exceeds v local offset = (case local of None \<Rightarrow> False | Some a \<Rightarrow> v - a > offset)"

subsection \<open>computeMask\<close>

text \<open>
  The rank used by \<open>isolation_forest\<close> and \<open>pca\<close>:
  \<open>Math.max(0, Math.min(sorted.length - 1, Math.round(sorted.length * (1 - contamination))))\<close>.
\<close>

definition contamination_rank :: "nat \<Rightarrow> real \<Rightarrow> nat" where
  "contamination_rank n c = nat (max 0 (min (int n - 1) (js_round (real n * (1 - c)))))"

definition computeMask :: "uint8 list \<Rightarrow> nat \<Rightarrow> nat \<Rightarrow> ChangeDetectionOptions \<Rightarrow> uint8 list" where
  "computeMask diff width height options =
     (let contam = min (1 / 2) (max (5 / 10000)
                     (case contamination options of None \<Rightarrow> 1 / 100 | Some c \<Rightarrow> c))
      in case algorithm options of
        Otsu \<Rightarrow>
          (let threshold = (case otsuManualThreshold options of
                              Some manual \<Rightarrow> js_round (manual * 255)
                            | None \<Rightarrow> int (otsuThreshold diff))
           in map (\<lambda>d. bit_of (uint d > threshold)) diff)
      | Adaptive \<Rightarrow>
          (let local = localAverage diff width height 3
           in map (\<lambda>i. bit_of (exceeds (real (unat (diff ! i))) (local ! i) 8)) [0..<length diff])
      | Kmeans \<Rightarrow>
          (let clusters = max 2 (case kmeansClusters options of None \<Rightarrow> 2 | Some k \<Rightarrow> k);
               iterations = max 1 (case kmeansIterations options of None \<Rightarrow> 6 | Some k \<Rightarrow> k);
               (centers, labels) = kmeans1D diff clusters iterations;
               sorted = sort_key fst (zip centers [0..<length centers]);
               changeCluster = snd (last sorted)
           in map (\<lambda>i. bit_of (unat (labels ! i) = changeCluster)) [0..<length diff])
      | IsolationForest \<Rightarrow>
          (let sorted = sort (map unat diff);
               threshold = sorted ! contamination_rank (length sorted) contam
           in map (\<lambda>d. bit_of (unat d \<ge> threshold)) diff)
      | Lof \<Rightarrow>
          (let local = localAverage diff width height 2
           in map (\<lambda>i. bit_of (exceeds (real (unat (diff ! i))) (local ! i) 12)) [0..<length diff])
      | Pca \<Rightarrow>
          (let n = real (length diff);
               mean = sum_list (map (\<lambda>v. real (unat v)) diff) / n;
               variance = sum_list (map (\<lambda>v. (real (unat v) - mean) ^ 2) diff) / n;
               std = max (sqrt variance) (1 / 1000000);
               scores = map (\<lambda>v. \<bar>(real (unat v) - mean) / std\<bar>) diff;
               sorted = sort scores;
               threshold = sorted ! contamination_rank (length sorted) contam
           in map (\<lambda>s. bit_of (s \<ge> threshold)) scores))"

subsection \<open>The between-class variance of a threshold, from the pixel values\<close>







section \<open>Difference and normalization (analysis.ts)\<close>

text \<open>
  An element of a \<open>Float32Array\<close>: a finite number, an infinity or \<open>NaN\<close>.  The rounding
  to single precision on a store and the overflow of very large finite results are not
  modelled.
\<close>

datatype sample = Fin real | PosInf | NegInf | NaN

fun isFinite :: "sample \<Rightarrow> bool" where
  "isFinite (Fin r) = True"
| "isFinite PosInf = False"
| "isFinite NegInf = False"
| "isFinite NaN = False"

text \<open>Subtraction and \<open>Math.abs\<close> on numbers that may be non-finite (IEEE 754).\<close>

fun sample_sub :: "sample \<Rightarrow> sample \<Rightarrow> sample" where
  "sample_sub NaN b = NaN"
| "sample_sub a NaN = NaN"
| "sample_sub (Fin x) (Fin y) = Fin (x - y)"
| "sample_sub (Fin x) PosInf = NegInf"
| "sample_sub (Fin x) NegInf = PosInf"
| "sample_sub PosInf (Fin y) = PosInf"
| "sample_sub PosInf PosInf = NaN"
| "sample_sub PosInf NegInf = PosInf"
| "sample_sub NegInf (Fin y) = NegInf"
| "sample_sub NegInf PosInf = NegInf"
| "sample_sub NegInf NegInf = NaN"

fun sample_abs :: "sample \<Rightarrow> sample" where
  "sample_abs (Fin x) = Fin \<bar>x\<bar>"
| "sample_abs PosInf = PosInf"
| "sample_abs NegInf = PosInf"
| "sample_abs NaN = NaN"

text \<open>
  Multiplication and division by a finite positive number, the only ones the normalization
  applies to a possibly non-finite value.
\<close>

fun sample_div_pos :: "sample \<Rightarrow> real \<Rightarrow> sample" where
  "sample_div_pos (Fin x) r = Fin (x / r)"
| "sample_div_pos s r = s"

fun sample_mul_pos :: "sample \<Rightarrow> real \<Rightarrow> sample" where
  "sample_mul_pos (Fin x) r = Fin (x * r)"
| "sample_mul_pos s r = s"

text \<open>
  \<open>percentile\<close>: the finite values, sorted ascending, read at the rounded rank; 0 when no
  value is finite.  The same function is repeated in objectDetection.ts.
\<close>

definition finite_values :: "sample list \<Rightarrow> real list" where
  "finite_values vs = concat (map (\<lambda>s. case s of Fin r \<Rightarrow> [r] | _ \<Rightarrow> []) vs)"

definition percentile :: "sample list \<Rightarrow> real \<Rightarrow> real" where
  "percentile vs p =
     (let arr = finite_values vs in
      if arr = [] then 0
      else (let sorted = sort arr;
                idx = min (int (length sorted) - 1)
                          (max 0 (js_round ((p / 100) * (real (length sorted) - 1))))
            in sorted ! nat idx))"

text \<open>
  \<open>absoluteDifference\<close>: one entry per element of \<open>a\<close>; \<open>b[i] ?? 0\<close> replaces only a
  missing element (an index beyond the end of \<open>b\<close>) by 0.
\<close>

definition absoluteDifference :: "sample list \<Rightarrow> sample list \<Rightarrow> sample list" where
  "absoluteDifference a b =
     map (\<lambda>i. sample_abs (sample_sub (if i < length b then b ! i else Fin 0) (a ! i)))
         [0..<length a]"

text \<open>
  The two normalizations to bytes differ in the upper percentile only: 98 in
  \<open>normalizeToUint8\<close> (analysis.ts), 99.5 in \<open>normalize\<close> (objectDetection.ts).
\<close>

definition normalize_between :: "real \<Rightarrow> real \<Rightarrow> sample list \<Rightarrow> uint8 list" where
  "normalize_between lo hi vs =
     (let p2 = percentile vs lo;
          p98 = percentile vs hi;
          range = max (1 / 1000000) (p98 - p2)
      in map (\<lambda>s. case sample_mul_pos (sample_div_pos (sample_sub s (Fin p2)) range) 255 of
                      Fin v \<Rightarrow> (of_int (min 255 (max 0 (js_round v))) :: uint8)
                    | _ \<Rightarrow> 0) vs)"

definition normalizeToUint8 :: "sample list \<Rightarrow> uint8 list" where
  "normalizeToUint8 vs = normalize_between 2 98 vs"

definition normalize :: "sample list \<Rightarrow> uint8 list" where
  "normalize vs = normalize_between 2 (995 / 10) vs"

text \<open>
  The reading of "a non-finite sample is treated as 0 in the difference": each operand is
  replaced by 0 when it is not finite, before the subtraction.
\<close>

definition zero_if_not_finite :: "sample \<Rightarrow> sample" where
  "zero_if_not_finite s = (if isFinite s then s else Fin 0)"

definition absoluteDifference_zeroing :: "sample list \<Rightarrow> sample list \<Rightarrow> sample list" where
  "absoluteDifference_zeroing a b =
     map (\<lambda>i. sample_abs (sample_sub (zero_if_not_finite (if i < length b then b ! i else Fin 0))
                                      (zero_if_not_finite (a ! i))))
         [0..<length a]"

section \<open>Speckle filter (analysis.ts)\<close>

text \<open>
  The remaining arithmetic on possibly non-finite numbers (IEEE 754, without the sign of
  zero: a finite number divided by zero takes the sign of the numerator).  \<open>Math.max\<close>
  and \<open>Math.min\<close> give \<open>NaN\<close> when an argument is \<open>NaN\<close>.
\<close>

fun sample_neg :: "sample \<Rightarrow> sample" where
  "sample_neg (Fin x) = Fin (- x)"
| "sample_neg PosInf = NegInf"
| "sample_neg NegInf = PosInf"
| "sample_neg NaN = NaN"

definition sample_add :: "sample \<Rightarrow> sample \<Rightarrow> sample" where
  "sample_add a b = sample_sub a (sample_neg b)"

fun signed_inf :: "bool \<Rightarrow> sample" where
  "signed_inf positive = (if positive then PosInf else NegInf)"

fun sample_mul :: "sample \<Rightarrow> sample \<Rightarrow> sample" where
  "sample_mul NaN b = NaN"
| "sample_mul a NaN = NaN"
| "sample_mul (Fin x) (Fin y) = Fin (x * y)"
| "sample_mul (Fin x) b = (if x = 0 then NaN else signed_inf ((0 < x) = (b = PosInf)))"
| "sample_mul a (Fin y) = (if y = 0 then NaN else signed_inf ((0 < y) = (a = PosInf)))"
| "sample_mul a b = signed_inf (a = b)"

fun sample_div :: "sample \<Rightarrow> sample \<Rightarrow> sample" where
  "sample_div NaN b = NaN"
| "sample_div a NaN = NaN"
| "sample_div (Fin x) (Fin y) =
     (if y \<noteq> 0 then Fin (x / y) else if x = 0 then NaN else signed_inf (0 < x))"
| "sample_div (Fin x) b = Fin 0"
| "sample_div a (Fin y) = signed_inf ((0 \<le> y) = (a = PosInf))"
| "sample_div a b = NaN"

fun sample_max :: "sample \<Rightarrow> sample \<Rightarrow> sample" where
  "sample_max NaN b = NaN"
| "sample_max a NaN = NaN"
| "sample_max PosInf b = PosInf"
| "sample_max a PosInf = PosInf"
| "sample_max NegInf b = b"
| "sample_max a NegInf = a"
| "sample_max (Fin x) (Fin y) = Fin (max x y)"

fun sample_min :: "sample \<Rightarrow> sample \<Rightarrow> sample" where
  "sample_min NaN b = NaN"
| "sample_min a NaN = NaN"
| "sample_min NegInf b = NegInf"
| "sample_min a NegInf = NegInf"
| "sample_min PosInf b = b"
| "sample_min a PosInf = a"
| "sample_min (Fin x) (Fin y) = Fin (min x y)"

fun sample_exp :: "sample \<Rightarrow> sample" where
  "sample_exp (Fin x) = Fin (exp x)"
| "sample_exp PosInf = PosInf"
| "sample_exp NegInf = Fin 0"
| "sample_exp NaN = NaN"

text \<open>A read of a \<open>Float32Array\<close> used in arithmetic: \<open>undefined\<close> behaves as \<open>NaN\<close>.\<close>

definition read_sample :: "sample list \<Rightarrow> nat \<Rightarrow> sample" where
  "read_sample vs i = (if i < length vs then vs ! i else NaN)"

definition sample_sum :: "sample list \<Rightarrow> sample" where
  "sample_sum xs = foldl sample_add (Fin 0) xs"

text \<open>
  The first loop of \<open>applySpeckleFilter\<close>: mean and variance over the window of each
  pixel, the window reduced to the taps inside the raster.
\<close>

definition window_mean :: "sample list \<Rightarrow> nat \<Rightarrow> nat \<Rightarrow> int \<Rightarrow> nat \<Rightarrow> nat \<Rightarrow> sample" where
  "window_mean vs width height radius x y =
     (let taps = window_taps width height radius x y;
          s = sample_sum (map (\<lambda>(xx, yy). read_sample vs (yy * width + xx)) taps);
          count = length taps
      in if count \<noteq> 0 then sample_div s (Fin (real count)) else read_sample vs (y * width + x))"

definition window_variance :: "sample list \<Rightarrow> nat \<Rightarrow> nat \<Rightarrow> int \<Rightarrow> nat \<Rightarrow> nat \<Rightarrow> sample" where
  "window_variance vs width height radius x y =
     (let taps = window_taps width height radius x y;
          sumSq = sample_sum (map (\<lambda>(xx, yy). sample_mul (read_sample vs (yy * width + xx))
                                                         (read_sample vs (yy * width + xx))) taps);
          count = length taps;
          m = window_mean vs width height radius x y
      in sample_max (Fin 0)
           (if count \<noteq> 0 then sample_sub (sample_div sumSq (Fin (real count))) (sample_mul m m)
            else Fin 0))"

text \<open>The value of one output pixel, from its value, local mean and local variance.\<close>

definition speckle_pixel :: "SpeckleKind \<Rightarrow> sample \<Rightarrow> sample \<Rightarrow> sample \<Rightarrow> sample \<Rightarrow> sample" where
  "speckle_pixel kind overallVar v m variance =
     (case kind of
        Lee \<Rightarrow>
          (let w = sample_div variance
                     (sample_add (sample_add variance overallVar) (Fin (1 / 1000000)))
           in sample_add m (sample_mul w (sample_sub v m)))
      | Kuan \<Rightarrow>
          (let enl = 4;
               ci2 = sample_div variance (sample_max (sample_mul m m) (Fin (1 / 1000000)));
               sigmaS2 = Fin (1 / enl);
               w = sample_max (Fin 0)
                     (sample_min (Fin 1)
                        (sample_sub (Fin 1)
                           (sample_div sigmaS2 (sample_max ci2 (Fin (1 / 1000000))))))
           in sample_add m (sample_mul w (sample_sub v m)))
      | Frost \<Rightarrow>
          (let damping = 2;
               coeff = sample_exp
                         (sample_div (sample_mul (Fin (- damping)) variance)
                            (sample_max overallVar (Fin (1 / 1000000))))
           in sample_add (sample_mul coeff m) (sample_mul (sample_sub (Fin 1) coeff) v))
      | NoFilter \<Rightarrow> v)"

definition speckle_filtered :: "sample list \<Rightarrow> nat \<Rightarrow> nat \<Rightarrow> SpeckleKind \<Rightarrow> real \<Rightarrow> sample list" where
  "speckle_filtered vs width height kind fsize =
     (let radius = max 1 \<lfloor>fsize / 2\<rfloor>;
          n = length vs;
          meanCache = raster_fill (replicate n (Fin 0)) width height
                        (window_mean vs width height radius);
          varCache = raster_fill (replicate n (Fin 0)) width height
                       (window_variance vs width height radius);
          overallMean = sample_div (sample_sum vs) (Fin (real n));
          overallVar = sample_div
                         (sample_sum (map (\<lambda>v. sample_mul (sample_sub v overallMean)
                                                          (sample_sub v overallMean)) vs))
                         (Fin (real n))
      in map (\<lambda>i. speckle_pixel kind overallVar (vs ! i) (meanCache ! i) (varCache ! i)) [0..<n])"

text \<open>
  The content of the buffer \<open>applySpeckleFilter\<close> returns: a copy of the input for
  \<open>none\<close> or a window size of at most 1, the filtered values otherwise.
\<close>

definition speckle_output :: "sample list \<Rightarrow> nat \<Rightarrow> nat \<Rightarrow> SpeckleKind \<Rightarrow> real \<Rightarrow> sample list" where
  "speckle_output vs width height kind fsize =
     (if kind = NoFilter \<or> fsize \<le> 1 then vs
      else speckle_filtered vs width height kind fsize)"

text \<open>
  Buffers live in a store, addressed by their index; \<open>new Float32Array(...)\<close> allocates
  the next address.  \<open>applySpeckleFilter\<close> takes the address of \<open>values\<close> and returns the
  store with the address of the buffer it returns.
\<close>

type_synonym store = "sample list list"

definition new_Float32Array :: "store \<Rightarrow> sample list \<Rightarrow> store \<times> nat" where
  "new_Float32Array st content = (st @ [content], length st)"

definition applySpeckleFilter ::
  "store \<Rightarrow> nat \<Rightarrow> nat \<Rightarrow> nat \<Rightarrow> SpeckleKind \<Rightarrow> real \<Rightarrow> store \<times> nat" where
  "applySpeckleFilter st values_ref width height kind fsize =
     new_Float32Array st (speckle_output (st ! values_ref) width height kind fsize)"

section \<open>Morphology (analysis.ts)\<close>

text \<open>
  \<open>dilate\<close> and \<open>erode\<close>: with a radius of at most 0 a copy of the mask; otherwise a
  fresh array of the same length, filled by the raster loop.  A pixel of the dilation is
  set when some tap of its window is set, a pixel of the erosion when every tap is; taps
  outside the raster are skipped, and the inner loops stop at the first deciding tap.
\<close>

definition dilate :: "uint8 list \<Rightarrow> nat \<Rightarrow> nat \<Rightarrow> int \<Rightarrow> uint8 list" where
  "dilate msk width height radius =
     (if radius \<le> 0 then msk
      else raster_fill (replicate (length msk) 0) width height
             (\<lambda>x y. bit_of (list_ex (\<lambda>(xx, yy). truthy_at msk (yy * width + xx))
                                     (window_taps width height radius x y))))"

definition erode :: "uint8 list \<Rightarrow> nat \<Rightarrow> nat \<Rightarrow> int \<Rightarrow> uint8 list" where
  "erode msk width height radius =
     (if radius \<le> 0 then msk
      else raster_fill (replicate (length msk) 0) width height
             (\<lambda>x y. bit_of (list_all (\<lambda>(xx, yy). truthy_at msk (yy * width + xx))
                                      (window_taps width height radius x y))))"

text \<open>The two compositions \<open>postProcessMask\<close> applies.\<close>

definition morph_opening :: "uint8 list \<Rightarrow> nat \<Rightarrow> nat \<Rightarrow> int \<Rightarrow> uint8 list" where
  "morph_opening msk width height radius = dilate (erode msk width height radius) width height radius"

definition morph_closing :: "uint8 list \<Rightarrow> nat \<Rightarrow> nat \<Rightarrow> int \<Rightarrow> uint8 list" where
  "morph_closing msk width height radius = erode (dilate msk width height radius) width height radius"

text \<open>
  Two pixels, given by their indices, lie in each other's window of the given radius.
\<close>

definition adjacent :: "nat \<Rightarrow> int \<Rightarrow> nat \<Rightarrow> nat \<Rightarrow> bool" where
  "adjacent width radius i j \<longleftrightarrow>
     \<bar>int (j mod width) - int (i mod width)\<bar> \<le> radius \<and>
     \<bar>int (j div width) - int (i div width)\<bar> \<le> radius"

section \<open>Flood fill, hole filling and small components (analysis.ts)\<close>

text \<open>
  The flood fills of the source share one shape: an array of visited flags and a stack
  of indices.  A push drops an index outside the array, an index that is not eligible and
  an index already visited; otherwise it marks the index and puts it on the stack.  The
  head of the list is the top of the stack (\<open>push\<close> and \<open>pop\<close> work at the end of the
  JavaScript array).
\<close>

definition flood_push :: "(nat \<Rightarrow> bool) \<Rightarrow> bool list \<times> nat list \<Rightarrow> int \<Rightarrow> bool list \<times> nat list" where
  "flood_push eligible state n =
     (case state of (visited, stack) \<Rightarrow>
        if n < 0 \<or> n \<ge> int (length visited) then (visited, stack)
        else if \<not> eligible (nat n) \<or> visited ! nat n then (visited, stack)
        else (visited[nat n := True], nat n # stack))"

definition flood_measure :: "bool list \<times> nat list \<Rightarrow> nat" where
  "flood_measure state = 2 * length (filter (\<lambda>v. \<not> v) (fst state)) + length (snd state)"

lemma unvisited_update:
  "i < length visited \<Longrightarrow> \<not> visited ! i \<Longrightarrow>
   Suc (length (filter (\<lambda>v. \<not> v) (visited[i := True]))) = length (filter (\<lambda>v. \<not> v) visited)"
proof (induction visited arbitrary: i)
  case Nil
  then show ?case by simp
next
  case (Cons v visited)
  then show ?case by (cases i) auto
qed

lemma flood_push_measure: "flood_measure (flood_push eligible state n) \<le> flood_measure state"
proof (cases state)
  case (Pair visited stack)
  show ?thesis
  proof (cases "n < 0 \<or> n \<ge> int (length visited) \<or> \<not> eligible (nat n) \<or> visited ! nat n")
    case True
    with Pair show ?thesis by (auto simp: flood_push_def)
  next
    case False
    then have "Suc (length (filter (\<lambda>v. \<not> v) (visited[nat n := True])))
                 = length (filter (\<lambda>v. \<not> v) visited)"
      by (intro unvisited_update) auto
    with False Pair show ?thesis by (auto simp: flood_push_def flood_measure_def)
  qed
qed

lemma flood_pushes_measure:
  "flood_measure (foldl (flood_push eligible) state ns) \<le> flood_measure state"
proof (induction ns arbitrary: state)
  case Nil
  then show ?case by simp
next
  case (Cons n ns)
  have "flood_measure (foldl (flood_push eligible) (flood_push eligible state n) ns)
          \<le> flood_measure (flood_push eligible state n)"
    by (rule Cons.IH)
  also have "\<dots> \<le> flood_measure state" by (rule flood_push_measure)
  finally show ?case by simp
qed

lemma flood_step_measure:
  "flood_measure (foldl (flood_push eligible) (visited, rest) ns)
     < flood_measure (visited, idx # rest)"
proof -
  have "flood_measure (foldl (flood_push eligible) (visited, rest) ns)
          \<le> flood_measure (visited, rest)"
    by (rule flood_pushes_measure)
  also have "\<dots> < flood_measure (visited, idx # rest)" by (simp add: flood_measure_def)
  finally show ?thesis .
qed

text \<open>
  The loop \<open>while (stack.length)\<close>: pop an index, record it in the component, push its
  neighbours.  Every push that succeeds marks a pixel, so the loop ends.
\<close>

function flood_loop ::
  "(nat \<Rightarrow> bool) \<Rightarrow> (nat \<Rightarrow> int list) \<Rightarrow> bool list \<Rightarrow> nat list \<Rightarrow> nat list
     \<Rightarrow> bool list \<times> nat list" where
  "flood_loop eligible neighbours visited stack component =
     (case stack of
        [] \<Rightarrow> (visited, component)
      | idx # rest \<Rightarrow>
          (case foldl (flood_push eligible) (visited, rest) (neighbours idx) of
             (visited', stack') \<Rightarrow>
               flood_loop eligible neighbours visited' stack' (component @ [idx])))"
  by pat_completeness auto
termination
  apply (relation "measure (\<lambda>(eligible, neighbours, visited, stack, component).
                             flood_measure (visited, stack))")
   apply simp
  apply (auto simp: flood_step_measure)
  done

declare flood_loop.simps [simp del]

text \<open>
  The neighbours both functions of analysis.ts push from a pixel: left, right, up, down,
  without those outside the array and those that are not at distance 1 in the raster (the
  end of the previous row, the start of the next).
\<close>

definition neighbours4 :: "nat \<Rightarrow> nat \<Rightarrow> nat \<Rightarrow> int list" where
  "neighbours4 width len idx =
     filter (\<lambda>n. \<not> (n < 0 \<or> n \<ge> int len) \<and>
                 \<not> (\<bar>int (nat n mod width) - int (idx mod width)\<bar>
                      + \<bar>int (nat n div width) - int (idx div width)\<bar> > 1))
            [int idx - 1, int idx + 1, int idx - int width, int idx + int width]"

text \<open>
  \<open>fillHoles\<close>: the background is flooded from the border pixels, in the order the two
  loops push them; every pixel that is neither set nor reached becomes 1.
\<close>

definition border_seeds :: "nat \<Rightarrow> nat \<Rightarrow> int list" where
  "border_seeds width height =
     concat (map (\<lambda>x. [int x, (int height - 1) * int width + int x]) [0..<width]) @
     concat (map (\<lambda>y. [int y * int width, int y * int width + (int width - 1)]) [0..<height])"

definition fillHoles :: "uint8 list \<Rightarrow> nat \<Rightarrow> nat \<Rightarrow> uint8 list" where
  "fillHoles msk width height =
     (let n = length msk;
          background = (\<lambda>i. \<not> truthy_at msk i);
          seeded = foldl (flood_push background) (replicate n False, []) (border_seeds width height);
          visited = fst (flood_loop background (neighbours4 width n) (fst seeded) (snd seeded) [])
      in map (\<lambda>i. if msk ! i = 0 \<and> \<not> visited ! i then 1 else msk ! i) [0..<n])"

text \<open>
  \<open>removeSmallComponents\<close>: the mask itself when \<open>minArea\<close> is at most 1; otherwise a copy
  in which every 4-connected component of fewer than \<open>minArea\<close> pixels is cleared.
\<close>

definition remove_step ::
  "uint8 list \<Rightarrow> nat \<Rightarrow> int \<Rightarrow> bool list \<times> uint8 list \<Rightarrow> nat \<Rightarrow> bool list \<times> uint8 list" where
  "remove_step msk width minArea state i =
     (case state of (visited, out) \<Rightarrow>
        if \<not> truthy_at msk i \<or> visited ! i then (visited, out)
        else (case flood_loop (truthy_at msk) (neighbours4 width (length msk))
                     (visited[i := True]) [i] [] of
                (visited', component) \<Rightarrow>
                  (visited',
                   if int (length component) < minArea
                   then foldl (\<lambda>out idx. out[idx := 0]) out component
                   else out)))"

definition removeSmallComponents :: "uint8 list \<Rightarrow> nat \<Rightarrow> nat \<Rightarrow> int \<Rightarrow> uint8 list" where
  "removeSmallComponents msk width height minArea =
     (if minArea \<le> 1 then msk
      else snd (foldl (remove_step msk width minArea) (replicate (length msk) False, msk)
                      [0..<length msk]))"

definition postProcessMask :: "uint8 list \<Rightarrow> nat \<Rightarrow> nat \<Rightarrow> PostProcessOptions \<Rightarrow> uint8 list" where
  "postProcessMask msk width height options =
     (let out1 = (if openingRadius options > 0
                  then dilate (erode msk width height (openingRadius options))
                         width height (openingRadius options)
                  else msk);
          out2 = (if closingRadius options > 0
                  then erode (dilate out1 width height (closingRadius options))
                         width height (closingRadius options)
                  else out1);
          out3 = (if fillHoles_opt options then fillHoles out2 width height else out2);
          out4 = (if minBlobArea options > 1
                  then removeSmallComponents out3 width height (minBlobArea options)
                  else out3)
      in out4)"

section \<open>analyzeChange (analysis.ts)\<close>

text \<open>What \<open>readSingleBand\<close> delivers for a file; the decoding itself is external.\<close>

record TiffReadResult =
  tiff_width :: nat
  tiff_height :: nat
  tiff_data :: "sample list"
  tiff_bbox :: "(sample \<times> sample \<times> sample \<times> sample) option"
  tiff_pixelScale :: "(sample \<times> sample) option"

text \<open>
  \<open>resampleFloat32Nearest\<close>: a copy for equal dimensions, otherwise the nearest source
  sample for every target pixel; a read outside the source stores \<open>NaN\<close>.
\<close>

definition resampleFloat32Nearest :: "sample list \<Rightarrow> nat \<Rightarrow> nat \<Rightarrow> nat \<Rightarrow> nat \<Rightarrow> sample list" where
  "resampleFloat32Nearest data srcWidth srcHeight dstWidth dstHeight =
     (if srcWidth = dstWidth \<and> srcHeight = dstHeight then data
      else raster_fill (replicate (dstWidth * dstHeight) (Fin 0)) dstWidth dstHeight
             (\<lambda>x y. let xRatio = real srcWidth / real dstWidth;
                        yRatio = real srcHeight / real dstHeight;
                        srcY = min (int srcHeight - 1) (js_round ((real y + 1 / 2) * yRatio - 1 / 2));
                        srcX = min (int srcWidth - 1) (js_round ((real x + 1 / 2) * xRatio - 1 / 2));
                        idx = srcY * int srcWidth + srcX
                    in if idx < 0 then NaN else read_sample data (nat idx)))"

text \<open>
  The result of \<open>analyzeChange\<close> without the preview images, which are rendered from
  the same arrays.  \<open>changePercentage\<close> is a number that may be \<open>NaN\<close> or infinite;
  \<open>changeAreaKm2\<close> is \<open>null\<close> (\<open>None\<close>) without a usable pixel scale.

  The previews are drawn on canvases in a browser.  \<open>canvasFromGray\<close> calls
  \<open>ctx.createImageData(width, height)\<close>, which throws an \<open>IndexSizeError\<close> when the width
  or the height is 0; the preview has the size of the raster, reduced to at most 1200
  pixels an edge and never below 1.  So for a raster without pixels the promise is
  rejected after the statistics are computed, and no result is returned.
\<close>

datatype render_error = IndexSizeError

record ChangeDetectionResult =
  res_mask :: "uint8 list"
  res_diff :: "uint8 list"
  changedPixels :: nat
  changePercentage :: sample
  changeAreaKm2 :: "sample option"
  res_bounds :: "(sample \<times> sample \<times> sample \<times> sample) option"
  originalWidth :: nat
  originalHeight :: nat

definition analyzeChange ::
  "TiffReadResult \<Rightarrow> TiffReadResult \<Rightarrow> ChangeDetectionOptions
     \<Rightarrow> render_error + ChangeDetectionResult" where
  "analyzeChange before after options =
     (let targetWidth = tiff_width after;
          targetHeight = tiff_height after;
          beforeWidth = tiff_width before;
          beforeHeight = tiff_height before;
          alignedBefore = (if beforeWidth = targetWidth \<and> beforeHeight = targetHeight
                           then tiff_data before
                           else resampleFloat32Nearest (tiff_data before) beforeWidth beforeHeight
                                  targetWidth targetHeight);
          alignedAfter = tiff_data after;
          width = targetWidth;
          height = targetHeight;
          kind = (case speckleFilter options of None \<Rightarrow> NoFilter | Some k \<Rightarrow> k);
          fsize = (case speckleSize options of None \<Rightarrow> 3 | Some s \<Rightarrow> s);
          filteredBefore = speckle_output alignedBefore width height kind fsize;
          filteredAfter = speckle_output alignedAfter width height kind fsize;
          diff = absoluteDifference filteredBefore filteredAfter;
          diffDisplay = normalizeToUint8 diff;
          rawMask = computeMask diffDisplay width height options;
          processedMask = postProcessMask rawMask width height (postProcess options);
          changed = popcount processedMask;
          percentage = sample_mul (sample_div (Fin (real changed)) (Fin (real (width * height))))
                         (Fin 100);
          pixelScale = (case tiff_pixelScale after of Some s \<Rightarrow> Some s
                        | None \<Rightarrow> tiff_pixelScale before);
          area = (case pixelScale of
                    None \<Rightarrow> None
                  | Some (sx, sy) \<Rightarrow>
                      (case sample_abs (sample_mul sx sy) of
                         Fin pixelArea \<Rightarrow>
                           if pixelArea > 0
                           then Some (Fin ((real changed * pixelArea) / 1000000)) else None
                       | _ \<Rightarrow> None));
          bounds = (case tiff_bbox after of Some b \<Rightarrow> Some b | None \<Rightarrow> tiff_bbox before)
      in if width = 0 \<or> height = 0 then Inl IndexSizeError
         else Inr \<lparr>res_mask = processedMask, res_diff = diffDisplay, changedPixels = changed,
                   changePercentage = percentage, changeAreaKm2 = area, res_bounds = bounds,
                   originalWidth = width, originalHeight = height\<rparr>)"

section \<open>Detection boxes and non-maximum suppression (objectDetection.ts)\<close>

record BoundingBox =
  box_x :: real
  box_y :: real
  box_width :: real
  box_height :: real

datatype UrbanFeatureCategory = Building | BorderWall | Bridge | River | UrbanFeature

text \<open>
  The identifier of a box: \<open>det-n\<close> from \<open>buildDetectionBoxes\<close>, \<open>ms-n\<close> and \<open>m-n\<close>
  from the two renumberings of \<open>detectObjects\<close>.
\<close>

datatype box_id = Det nat | Ms nat | Mg nat

text \<open>
  The fields of \<open>DetectionBox\<close> that the detection pipeline computes.  The label and
  the notes are strings fixed by the category; the preview box, the preview centroid and
  the footprint are filled in for display after the list of boxes is final.
\<close>

record DetectionBox =
  box_ident :: box_id
  categoryId :: UrbanFeatureCategory
  confidence :: real
  bbox :: BoundingBox
  areaPixels :: nat
  centroid :: "real \<times> real"

definition iou :: "BoundingBox \<Rightarrow> BoundingBox \<Rightarrow> real" where
  "iou a b =
    (let x0 = max (box_x a) (box_x b);
         y0 = max (box_y a) (box_y b);
         x1 = min (box_x a + box_width a) (box_x b + box_width b);
         y1 = min (box_y a + box_height a) (box_y b + box_height b);
         w = max 0 (x1 - x0);
         h = max 0 (y1 - y0);
         inter = w * h;
         union = box_width a * box_height a + box_width b * box_height b - inter
     in if union > 0 then inter / union else 0)"

text \<open>
  The greedy loop of \<open>nonMaximumSuppression\<close> over the sorted boxes; \<open>keep\<close> is the list
  built so far.  The inner loop sets \<open>skip\<close> at the first kept box whose IoU with the
  candidate reaches the threshold.
\<close>

fun nms_loop :: "DetectionBox list \<Rightarrow> DetectionBox list \<Rightarrow> real \<Rightarrow> DetectionBox list" where
  "nms_loop [] keep t = keep"
| "nms_loop (box # rest) keep t =
    (if list_ex (\<lambda>k. iou (bbox box) (bbox k) \<ge> t) keep
     then nms_loop rest keep t
     else nms_loop rest (keep @ [box]) t)"

text \<open>
  \<open>boxes.slice().sort((a, b) => b.confidence - a.confidence)\<close>: \<open>Array.prototype.sort\<close>
  is stable, so the sorted copy is the stable sort by descending confidence, which is
  what \<open>sort_key\<close> (insertion sort) computes for the key \<open>- confidence\<close>.
\<close>

definition sort_by_confidence :: "DetectionBox list \<Rightarrow> DetectionBox list" where
  "sort_by_confidence boxes = sort_key (\<lambda>b. - confidence b) boxes"

definition nonMaximumSuppression :: "DetectionBox list \<Rightarrow> real \<Rightarrow> DetectionBox list" where
  "nonMaximumSuppression boxes t = nms_loop (sort_by_confidence boxes) [] t"

definition no_overlap :: "real \<Rightarrow> DetectionBox list \<Rightarrow> bool" where
  "no_overlap t r \<longleftrightarrow>
     (\<forall>i j. i < j \<and> j < length r \<longrightarrow>
        iou (bbox (r ! i)) (bbox (r ! j)) < t \<and> iou (bbox (r ! j)) (bbox (r ! i)) < t)"


section \<open>Footprint polygons (objectDetection.ts)\<close>







section \<open>Zhang-Suen thinning (objectDetection.ts)\<close>

definition neighborCoords :: "(int \<times> int) list" where
  "neighborCoords = [(-1, -1), (0, -1), (1, -1), (1, 0), (1, 1), (0, 1), (-1, 1), (-1, 0)]"

text \<open>
  The test of one interior pixel within a pass: set, between 2 and 6 set neighbours,
  exactly one 0-to-1 transition around it, and neither \<open>p2\<close> nor \<open>p4\<close>.  The source
  applies the same two exclusions in pass 0 and in pass 1.
\<close>

definition thin_candidate :: "nat \<Rightarrow> uint8 list \<Rightarrow> nat \<Rightarrow> nat \<Rightarrow> nat \<Rightarrow> bool" where
  "thin_candidate pass img width x y =
     (truthy_at img (y * width + x) \<and>
      (let vals = map (\<lambda>(dx, dy).
                         if truthy_at img (nat (int y + dy) * width + nat (int x + dx))
                         then (1::nat) else 0) neighborCoords;
           neighbors = sum_list vals
       in \<not> (neighbors < 2 \<or> neighbors > 6) \<and>
          (let transitions = length (filter (\<lambda>k. vals ! k = 0 \<and> vals ! ((k + 1) mod 8) = 1) [0..<8]);
               p2 = (vals ! 1 \<noteq> 0 \<and> vals ! 3 \<noteq> 0 \<and> vals ! 5 \<noteq> 0);
               p4 = (vals ! 3 \<noteq> 0 \<and> vals ! 5 \<noteq> 0 \<and> vals ! 7 \<noteq> 0)
           in transitions = 1 \<and>
              (if pass = 0 then \<not> p2 \<and> \<not> p4 else \<not> p2 \<and> \<not> p4))))"

text \<open>
  The indices a pass collects in \<open>toRemove\<close>, scanning the interior rows and columns;
  the image is not written during the scan.
\<close>

definition thin_toRemove :: "nat \<Rightarrow> uint8 list \<Rightarrow> nat \<Rightarrow> nat \<Rightarrow> nat list" where
  "thin_toRemove pass img width height =
     concat (map (\<lambda>y. concat (map (\<lambda>x. if thin_candidate pass img width x y
                                        then [y * width + x] else [])
                                 [1..<width - 1]))
                 [1..<height - 1])"

definition clear_pixels :: "uint8 list \<Rightarrow> nat list \<Rightarrow> uint8 list" where
  "clear_pixels img toRemove = foldl (\<lambda>im i. im[i := 0]) img toRemove"

text \<open>
  One round of the \<open>while\<close> loop: \<open>changing\<close> is reset, then each of the two passes
  collects its pixels, sets \<open>changing\<close> if there are any, and clears them.
\<close>

definition thin_round :: "uint8 list \<Rightarrow> nat \<Rightarrow> nat \<Rightarrow> uint8 list \<times> bool" where
  "thin_round img width height =
     (let toRemove0 = thin_toRemove 0 img width height;
          changing0 = (toRemove0 \<noteq> []);
          img0 = clear_pixels img toRemove0;
          toRemove1 = thin_toRemove 1 img0 width height;
          changing1 = (changing0 \<or> toRemove1 \<noteq> []);
          img1 = clear_pixels img0 toRemove1
      in (img1, changing1))"


text \<open>
  Clearing pixels never raises the number of set pixels, and lowers it when a cleared
  pixel was set; every pixel a pass collects is set.  This is the measure of the loop.
\<close>


lemma truthy_popcount_pos: "truthy_at img i \<Longrightarrow> 0 < popcount img"
proof -
  assume "truthy_at img i"
  then have "img ! i \<in> set img" and "img ! i \<noteq> 0" by (simp_all add: truthy_at_def)
  then have "filter (\<lambda>v. v \<noteq> 0) img \<noteq> []" by (auto simp: filter_empty_conv)
  then show ?thesis by (simp add: popcount_def)
qed

lemma popcount_clear_one:
  "popcount (img[i := 0]) = popcount img - (if truthy_at img i then 1 else 0)"
proof (induction img arbitrary: i)
  case Nil
  then show ?case by (simp add: popcount_def truthy_at_def)
next
  case (Cons v img)
  show ?case
  proof (cases i)
    case 0
    then show ?thesis by (simp add: popcount_def truthy_at_def)
  next
    case (Suc k)
    have "popcount (img[k := 0]) \<le> popcount img" using Cons.IH [of k] by simp
    moreover have "truthy_at img k \<Longrightarrow> 0 < popcount img"
      by (rule truthy_popcount_pos)
    ultimately show ?thesis using Cons.IH [of k] Suc
      by (auto simp: popcount_def truthy_at_def)
  qed
qed

lemma popcount_clear_le: "popcount (clear_pixels img rs) \<le> popcount img"
proof (induction rs arbitrary: img)
  case Nil
  then show ?case by (simp add: clear_pixels_def)
next
  case (Cons r rs)
  have "popcount (clear_pixels (img[r := 0]) rs) \<le> popcount (img[r := 0])"
    by (rule Cons.IH)
  also have "\<dots> \<le> popcount img" by (simp add: popcount_clear_one)
  finally show ?case by (simp add: clear_pixels_def)
qed

lemma popcount_clear_less:
  assumes "rs \<noteq> []" and "\<forall>r \<in> set rs. truthy_at img r"
  shows "popcount (clear_pixels img rs) < popcount img"
proof -
  from assms(1) obtain r rest where rs: "rs = r # rest" by (cases rs) auto
  with assms(2) have t: "truthy_at img r" by simp
  then have "0 < popcount img" by (rule truthy_popcount_pos)
  with t have "popcount (img[r := 0]) < popcount img" by (simp add: popcount_clear_one)
  moreover have "popcount (clear_pixels (img[r := 0]) rest) \<le> popcount (img[r := 0])"
    by (rule popcount_clear_le)
  ultimately show ?thesis by (simp add: rs clear_pixels_def)
qed

lemma thin_toRemove_truthy: "r \<in> set (thin_toRemove pass img width height) \<Longrightarrow> truthy_at img r"
  by (auto simp: thin_toRemove_def thin_candidate_def split: if_splits)

lemma clear_pixels_length: "length (clear_pixels img rs) = length img"
  by (induction rs arbitrary: img) (simp_all add: clear_pixels_def)

lemma thin_round_props:
  assumes "thin_round img width height = (img', changing)"
  shows "length img' = length img"
    and "changing \<Longrightarrow> popcount img' < popcount img"
    and "\<not> changing \<Longrightarrow> img' = img"
proof -
  let ?r0 = "thin_toRemove 0 img width height"
  let ?i0 = "clear_pixels img ?r0"
  let ?r1 = "thin_toRemove 1 ?i0 width height"
  from assms have img': "img' = clear_pixels ?i0 ?r1" and ch: "changing = (?r0 \<noteq> [] \<or> ?r1 \<noteq> [])"
    by (simp_all add: thin_round_def Let_def)
  show "length img' = length img" by (simp add: img' clear_pixels_length)
  show "img' = img" if "\<not> changing"
    using that by (simp add: img' ch clear_pixels_def)
  show "popcount img' < popcount img" if changing
  proof (cases "?r0 = []")
    case True
    with that ch have "?r1 \<noteq> []" by simp
    then have "popcount (clear_pixels ?i0 ?r1) < popcount ?i0"
      by (rule popcount_clear_less) (simp add: thin_toRemove_truthy)
    with True show ?thesis by (simp add: img' clear_pixels_def)
  next
    case False
    then have "popcount ?i0 < popcount img"
      by (rule popcount_clear_less) (simp add: thin_toRemove_truthy)
    moreover have "popcount (clear_pixels ?i0 ?r1) \<le> popcount ?i0" by (rule popcount_clear_le)
    ultimately show ?thesis by (simp add: img')
  qed
qed

text \<open>
  The \<open>while (changing)\<close> loop: another round as long as the last round removed a pixel.
\<close>

function thin_loop :: "uint8 list \<Rightarrow> nat \<Rightarrow> nat \<Rightarrow> uint8 list" where
  "thin_loop img width height =
     (case thin_round img width height of
        (img', changing) \<Rightarrow> if changing then thin_loop img' width height else img')"
  by pat_completeness auto
termination
  apply (relation "measure (\<lambda>(img, width, height). popcount img)")
   apply simp
  using thin_round_props(2) apply auto
  done

declare thin_loop.simps [simp del]

text \<open>\<open>zhangSuenThin\<close> works on a copy of the mask and returns it.\<close>

definition zhangSuenThin :: "uint8 list \<Rightarrow> nat \<Rightarrow> nat \<Rightarrow> uint8 list" where
  "zhangSuenThin msk width height = thin_loop msk width height"

text \<open>The same loop cut off after a number of rounds: \<open>None\<close> when it has not left by then.\<close>

fun thin_rounds :: "nat \<Rightarrow> uint8 list \<Rightarrow> nat \<Rightarrow> nat \<Rightarrow> uint8 list option" where
  "thin_rounds 0 img width height = None"
| "thin_rounds (Suc n) img width height =
     (case thin_round img width height of
        (img', changing) \<Rightarrow> if changing then thin_rounds n img' width height else Some img')"

section \<open>Classification and detection boxes (objectDetection.ts)\<close>

record ObjectDetectionOptions =
  thresholdPercentile :: real
  minAreaPixels :: real
  maxDetections :: "real option"

record ClassificationMetrics =
  m_areaPixels :: real
  m_boundingArea :: real
  m_fillRatio :: real
  m_aspectRatio :: real
  m_majorAxis :: real
  m_minorAxis :: real

text \<open>
  \<open>classifyUrbanFeature\<close>: the candidates are pushed in the order building, bridge,
  border-wall, river, sorted by descending score (a stable sort), and the first one wins;
  without a candidate the category is urban-feature.  The result is the category and the
  shape score (the notes are a string fixed by the category).
\<close>

definition classifyUrbanFeature :: "ClassificationMetrics \<Rightarrow> UrbanFeatureCategory \<times> real" where
  "classifyUrbanFeature metrics =
     (let areaPixels = m_areaPixels metrics;
          fillRatio = m_fillRatio metrics;
          aspectRatio = m_aspectRatio metrics;
          majorAxis = m_majorAxis metrics;
          minorAxis = m_minorAxis metrics;
          buildingSize = clamp01 ((areaPixels - 1200) / 7000);
          buildingDensity = clamp01 ((fillRatio - 22 / 100) / (4 / 10));
          buildingAspect = clamp01 (1 - \<bar>aspectRatio - 16 / 10\<bar> / 3);
          buildingScore = clamp01 (buildingSize * (4 / 10) + buildingDensity * (4 / 10)
                                    + buildingAspect * (2 / 10));
          c1 = (if buildingScore > 25 / 100 \<and> areaPixels \<ge> 1000
                then [(Building, 55 / 100 + (45 / 100) * buildingScore)] else []);
          bridgeElongation = clamp01 ((aspectRatio - 35 / 10) / (65 / 10));
          bridgeSpan = clamp01 ((majorAxis - 40) / 140);
          bridgeWidth = clamp01 (1 - \<bar>minorAxis - 18\<bar> / 28);
          bridgeDensity = clamp01 ((fillRatio - 2 / 10) / (45 / 100));
          bridgeScore = clamp01 (bridgeElongation * (35 / 100) + bridgeSpan * (25 / 100)
                                  + bridgeDensity * (25 / 100) + bridgeWidth * (15 / 100));
          c2 = (if bridgeScore > 25 / 100 \<and> majorAxis \<ge> 40 \<and> minorAxis \<le> 80
                then [(Bridge, 5 / 10 + (5 / 10) * bridgeScore)] else []);
          wallElongation = clamp01 ((aspectRatio - 6) / 8);
          wallSlenderness = clamp01 (1 - (minorAxis - 3) / 22);
          wallDiffusion = clamp01 ((35 / 100 - fillRatio) / (35 / 100));
          wallScore = clamp01 (wallElongation * (45 / 100) + wallSlenderness * (35 / 100)
                                + wallDiffusion * (2 / 10));
          c3 = (if wallScore > 2 / 10 \<and> majorAxis \<ge> 35
                then [(BorderWall, 5 / 10 + (5 / 10) * wallScore)] else []);
          riverArea = clamp01 (areaPixels / 20000);
          riverDiffuse = clamp01 ((3 / 10 - fillRatio) / (3 / 10));
          riverElongation = clamp01 ((aspectRatio - 2) / 8);
          riverWidth = clamp01 ((minorAxis - 6) / 40);
          riverScore = clamp01 (riverArea * (35 / 100) + riverDiffuse * (35 / 100)
                                 + riverElongation * (2 / 10) + riverWidth * (1 / 10));
          c4 = (if riverScore > 2 / 10 \<and> areaPixels \<ge> 900
                then [(River, 5 / 10 + (5 / 10) * riverScore)] else []);
          candidates = c1 @ c2 @ c3 @ c4
      in case sort_key (\<lambda>c. - snd c) candidates of
           best # _ \<Rightarrow> (fst best, clamp01 (snd best))
         | [] \<Rightarrow>
             (let fallbackScore = clamp01 (clamp01 (areaPixels / 6000) * (5 / 10)
                                           + clamp01 (fillRatio / (45 / 100)) * (5 / 10))
              in (UrbanFeature, 35 / 100 + (4 / 10) * fallbackScore)))"

text \<open>
  The bounding box of a component: \<open>minX\<close>, \<open>minY\<close> start at \<open>width\<close>, \<open>height\<close> and
  \<open>maxX\<close>, \<open>maxY\<close> at 0.  The box is kept in whole numbers here.
\<close>

definition component_bounds :: "nat list \<Rightarrow> nat \<Rightarrow> nat \<Rightarrow> nat \<times> nat \<times> nat \<times> nat" where
  "component_bounds pixels width height =
     foldl (\<lambda>(minX, minY, maxX, maxY) idx.
              let y = idx div width; x = idx mod width
              in (if x < minX then x else minX, if y < minY then y else minY,
                  if x > maxX then x else maxX, if y > maxY then y else maxY))
           (width, height, 0, 0) pixels"

text \<open>
  The local mask of a component: one byte per pixel of its bounding box, set where the
  mask of the whole raster is set.
\<close>

definition component_mask :: "uint8 list \<Rightarrow> nat \<Rightarrow> nat \<Rightarrow> nat \<Rightarrow> nat \<Rightarrow> nat \<Rightarrow> uint8 list" where
  "component_mask msk width bx0 by0 bw bh =
     raster_fill (replicate (bw * bh) 0) bw bh
       (\<lambda>px py. bit_of (truthy_at msk ((by0 + py) * width + (bx0 + px))))"

text \<open>\<open>skeletonLength\<close>: the number of the given indices at which the mask is set.\<close>

definition skeletonLength :: "nat list \<Rightarrow> nat \<Rightarrow> uint8 list \<Rightarrow> nat" where
  "skeletonLength component width msk = length (filter (\<lambda>idx. truthy_at msk idx) component)"

text \<open>
  The linearity the source computes for a component.  The indices passed to
  \<open>skeletonLength\<close> are \<open>idx - bbox.y * width - bbox.x\<close>, with the width of the raster.
\<close>

definition component_linearity :: "nat list \<Rightarrow> uint8 list \<Rightarrow> nat \<Rightarrow> nat \<Rightarrow> real" where
  "component_linearity pixels msk width height =
     (case component_bounds pixels width height of
        (minX, minY, maxX, maxY) \<Rightarrow>
          (let bw = maxX - minX + 1;
               bh = maxY - minY + 1;
               compMask = component_mask msk width minX minY bw bh;
               skel = zhangSuenThin compMask bw bh;
               sklen = skeletonLength (map (\<lambda>idx. idx - minY * width - minX) pixels) bw skel
           in clamp01 (real sklen / max 1 (real (length pixels)))))"

text \<open>
  The override of the category by the linearity: the forced category, if any, and the
  adjusted shape score.
\<close>

definition linearity_override ::
  "real \<Rightarrow> real \<Rightarrow> real \<Rightarrow> real \<Rightarrow> UrbanFeatureCategory option \<times> real" where
  "linearity_override linearity major aspectRatio shapeScore =
     (if linearity > 25 / 100 \<and> major \<ge> 20
      then (if aspectRatio > 3 \<or> major > 50
            then (Some Bridge, clamp01 (max shapeScore (6 / 10 + linearity * (4 / 10))))
            else (Some BorderWall, clamp01 (max shapeScore (55 / 100 + linearity * (35 / 100)))))
      else (None, shapeScore))"

text \<open>
  The body of the loop of \<open>buildDetectionBoxes\<close> for one component: \<open>None\<close> where the
  source says \<open>continue\<close>, otherwise the box to push, numbered \<open>n\<close>.  Components come from
  \<open>floodFillComponents\<close>: they are not empty and their indices lie inside \<open>data\<close>.
\<close>

definition detection_box ::
  "nat list \<Rightarrow> uint8 list \<Rightarrow> uint8 list \<Rightarrow> nat \<Rightarrow> nat \<Rightarrow> ObjectDetectionOptions \<Rightarrow> real \<Rightarrow> nat
     \<Rightarrow> DetectionBox option" where
  "detection_box pixels msk data width height options thresholdValue n =
     (if real (length pixels) < minAreaPixels options then None
      else case component_bounds pixels width height of
        (minX, minY, maxX, maxY) \<Rightarrow>
          (let bw = maxX - minX + 1;
               bh = maxY - minY + 1;
               area = bw * bh
           in if real area < minAreaPixels options then None
              else
                (let s = sum_list (map (\<lambda>idx. real (unat (data ! idx))) pixels);
                     averageIntensity = s / real (length pixels);
                     baseConfidence = clamp01 ((averageIntensity - thresholdValue)
                                                / max 1 (255 - thresholdValue));
                     centroidX = sum_list (map (\<lambda>idx. real (idx mod width)) pixels)
                                 / real (length pixels);
                     centroidY = sum_list (map (\<lambda>idx. real (idx div width)) pixels)
                                 / real (length pixels);
                     fillRatio = real (length pixels) / max 1 (real area);
                     major = real (max bw bh);
                     minor = max 1 (real (min bw bh));
                     aspectRatio = major / minor;
                     classification = classifyUrbanFeature
                       \<lparr>m_areaPixels = real (length pixels), m_boundingArea = real area,
                        m_fillRatio = fillRatio, m_aspectRatio = aspectRatio,
                        m_majorAxis = major, m_minorAxis = minor\<rparr>;
                     linearity = component_linearity pixels msk width height;
                     (forcedCategory, adjustedShapeScore) =
                        linearity_override linearity major aspectRatio (snd classification);
                     conf = clamp01 (baseConfidence * (5 / 10) + adjustedShapeScore * (5 / 10))
                 in Some \<lparr>box_ident = Det n,
                          categoryId = (case forcedCategory of Some c \<Rightarrow> c
                                        | None \<Rightarrow> fst classification),
                          confidence = conf,
                          bbox = \<lparr>box_x = real minX, box_y = real minY,
                                  box_width = real bw, box_height = real bh\<rparr>,
                          areaPixels = length pixels,
                          centroid = (centroidX, centroidY)\<rparr>)))"

text \<open>
  The loop over the components, with the boxes pushed so far; it stops after a push that
  reaches \<open>maxDetections\<close>, unless \<open>maxDetections\<close> is falsy (\<open>undefined\<close> or 0).
\<close>

fun detection_loop ::
  "nat list list \<Rightarrow> uint8 list \<Rightarrow> uint8 list \<Rightarrow> nat \<Rightarrow> nat \<Rightarrow> ObjectDetectionOptions \<Rightarrow> real
     \<Rightarrow> DetectionBox list \<Rightarrow> DetectionBox list" where
  "detection_loop [] msk data width height options thresholdValue boxes = boxes"
| "detection_loop (pixels # rest) msk data width height options thresholdValue boxes =
     (case detection_box pixels msk data width height options thresholdValue (length boxes + 1) of
        None \<Rightarrow> detection_loop rest msk data width height options thresholdValue boxes
      | Some box \<Rightarrow>
          (let boxes' = boxes @ [box]
           in if (case maxDetections options of
                    None \<Rightarrow> False
                  | Some m \<Rightarrow> m \<noteq> 0 \<and> real (length boxes') \<ge> m)
              then boxes'
              else detection_loop rest msk data width height options thresholdValue boxes'))"

definition percentile_bytes :: "uint8 list \<Rightarrow> real \<Rightarrow> real" where
  "percentile_bytes data p = percentile (map (\<lambda>v. Fin (real (unat v))) data) p"

definition buildDetectionBoxes ::
  "nat list list \<Rightarrow> uint8 list \<Rightarrow> uint8 list \<Rightarrow> nat \<Rightarrow> nat \<Rightarrow> ObjectDetectionOptions
     \<Rightarrow> DetectionBox list" where
  "buildDetectionBoxes components msk data width height options =
     detection_loop components msk data width height options
       (percentile_bytes data (thresholdPercentile options)) []"

text \<open>
  The skeleton pixel count of a component, as the words say: the pixels of the component
  that are set in the skeleton of its local mask, each looked up at its own place
  \<open>(y - bbox.y) * bbox.width + (x - bbox.x)\<close> in that mask.
\<close>

definition skeleton_pixel_count :: "nat list \<Rightarrow> uint8 list \<Rightarrow> nat \<Rightarrow> nat \<Rightarrow> nat" where
  "skeleton_pixel_count pixels msk width height =
     (case component_bounds pixels width height of
        (minX, minY, maxX, maxY) \<Rightarrow>
          (let bw = maxX - minX + 1;
               bh = maxY - minY + 1;
               skel = zhangSuenThin (component_mask msk width minX minY bw bh) bw bh
           in length (filter (\<lambda>idx. truthy_at skel ((idx div width - minY) * bw
                                                       + (idx mod width - minX))) pixels)))"

definition skeleton_linearity_ratio :: "nat list \<Rightarrow> uint8 list \<Rightarrow> nat \<Rightarrow> nat \<Rightarrow> real" where
  "skeleton_linearity_ratio pixels msk width height =
     real (skeleton_pixel_count pixels msk width height) / real (length pixels)"

text \<open>
  An example raster of 5 by 20 pixels: a vertical line, one pixel wide, in column 2,
  bright on a dark ground; its mask, and the line as one component.
\<close>

definition vline_data :: "uint8 list" where
  "vline_data = map (\<lambda>i. if i mod 5 = 2 then 255 else 0) [0..<100]"

definition vline_mask :: "uint8 list" where
  "vline_mask = map (\<lambda>i. bit_of (i mod 5 = 2)) [0..<100]"

definition vline_pixels :: "nat list" where
  "vline_pixels = map (\<lambda>y. y * 5 + 2) [0..<20]"

section \<open>The detection pipeline (objectDetection.ts)\<close>

text \<open>
  \<open>resampleNearest\<close>: the nearest source byte for every target pixel; a read outside
  the source stores 0 in the \<open>Uint8ClampedArray\<close>.
\<close>

definition resampleNearest :: "uint8 list \<Rightarrow> nat \<Rightarrow> nat \<Rightarrow> nat \<Rightarrow> nat \<Rightarrow> uint8 list" where
  "resampleNearest data srcW srcH dstW dstH =
     raster_fill (replicate (dstW * dstH) 0) dstW dstH
       (\<lambda>x y. let srcY = min (int srcH - 1)
                             (js_round ((real y + 1 / 2) * (real srcH / real dstH) - 1 / 2));
                  srcX = min (int srcW - 1)
                             (js_round ((real x + 1 / 2) * (real srcW / real dstW) - 1 / 2));
                  idx = srcY * int srcW + srcX
              in if idx < 0 \<or> idx \<ge> int (length data) then 0 else data ! nat idx)"

definition createBinaryMask :: "uint8 list \<Rightarrow> real \<Rightarrow> uint8 list" where
  "createBinaryMask data threshold = map (\<lambda>v. bit_of (real (unat v) \<ge> threshold)) data"

text \<open>
  \<open>applyMorphology\<close>: one dilation into \<open>temp\<close> and one erosion into \<open>result\<close>, both
  over the 3 by 3 window reduced to the raster.
\<close>

datatype MorphOperation = Dilate | Erode

definition operate :: "uint8 list \<Rightarrow> nat \<Rightarrow> nat \<Rightarrow> MorphOperation \<Rightarrow> uint8 list" where
  "operate source width height operation =
     raster_fill (replicate (length source) 0) width height
       (\<lambda>x y. case operation of
                 Dilate \<Rightarrow> bit_of (list_ex (\<lambda>(xx, yy). truthy_at source (yy * width + xx))
                                           (window_taps width height 1 x y))
               | Erode \<Rightarrow> bit_of (list_all (\<lambda>(xx, yy). truthy_at source (yy * width + xx))
                                           (window_taps width height 1 x y)))"

definition applyMorphology :: "uint8 list \<Rightarrow> nat \<Rightarrow> nat \<Rightarrow> uint8 list" where
  "applyMorphology msk width height =
     operate (operate msk width height Dilate) width height Erode"

text \<open>
  \<open>floodFillComponents\<close>: the eight pushes of a pixel are index offsets; only the push
  itself checks the index, the mask and the visited flag.
\<close>

definition neighbours8 :: "nat \<Rightarrow> nat \<Rightarrow> int list" where
  "neighbours8 width current =
     [int current - 1, int current + 1, int current - int width, int current + int width,
      int current - int width - 1, int current - int width + 1,
      int current + int width - 1, int current + int width + 1]"

definition components_step ::
  "uint8 list \<Rightarrow> nat \<Rightarrow> bool list \<times> nat list list \<Rightarrow> nat \<Rightarrow> bool list \<times> nat list list" where
  "components_step msk width state idx =
     (case state of (visited, components) \<Rightarrow>
        if \<not> truthy_at msk idx \<or> visited ! idx then (visited, components)
        else (case flood_loop (truthy_at msk) (neighbours8 width) (visited[idx := True]) [idx] [] of
                (visited', component) \<Rightarrow> (visited', components @ [component])))"

definition floodFillComponents :: "uint8 list \<Rightarrow> nat \<Rightarrow> nat \<Rightarrow> nat list list" where
  "floodFillComponents msk width height =
     snd (foldl (components_step msk width) (replicate (length msk) False, []) [0..<length msk])"

text \<open>
  \<open>computeIntegralImage\<close>: a \<open>Uint32Array\<close>, so each stored sum is reduced modulo
  \<open>2\<^sup>3\<^sup>2\<close>.  The running row sum is a number; it is \<open>NaN\<close> (\<open>None\<close>) after a read beyond
  the end of \<open>values\<close>, and \<open>NaN\<close> is stored as 0.
\<close>

definition integral_row ::
  "uint8 list \<Rightarrow> nat \<Rightarrow> nat \<Rightarrow> 32 word list \<Rightarrow> 32 word list" where
  "integral_row values width y ii =
     fst (foldl (\<lambda>(ii, rowSum) x.
                   let i = (y - 1) * width + (x - 1);
                       rowSum' = (case rowSum of
                                    None \<Rightarrow> None
                                  | Some s \<Rightarrow> if i < length values
                                              then Some (s + unat (values ! i)) else None)
                   in (ii[y * (width + 1) + x :=
                          (case rowSum' of
                             None \<Rightarrow> 0
                           | Some s \<Rightarrow> of_nat (unat (ii ! ((y - 1) * (width + 1) + x)) + s))],
                       rowSum'))
                (ii, Some 0) [1..<width + 1])"

definition computeIntegralImage :: "uint8 list \<Rightarrow> nat \<Rightarrow> nat \<Rightarrow> 32 word list" where
  "computeIntegralImage values width height =
     foldl (\<lambda>ii y. integral_row values width y ii)
           (replicate ((width + 1) * (height + 1)) 0) [1..<height + 1]"

definition localMean :: "32 word list \<Rightarrow> nat \<Rightarrow> nat \<Rightarrow> nat \<Rightarrow> nat \<Rightarrow> nat \<Rightarrow> real" where
  "localMean ii x0 y0 x1 y1 widthPlus1 =
     (let A = real (unat (ii ! (y0 * widthPlus1 + x0)));
          B = real (unat (ii ! (y0 * widthPlus1 + x1)));
          C = real (unat (ii ! (y1 * widthPlus1 + x0)));
          D = real (unat (ii ! (y1 * widthPlus1 + x1)))
      in (D - B - C + A) / (real (x1 - x0) * real (y1 - y0)))"

text \<open>
  \<open>adaptiveBinaryMask\<close>, for a window of at least one pixel: the rectangle of the mean
  starts half a window before the pixel and is cut at the raster.
\<close>

definition adaptiveBinaryMask :: "uint8 list \<Rightarrow> nat \<Rightarrow> nat \<Rightarrow> nat \<Rightarrow> real \<Rightarrow> uint8 list" where
  "adaptiveBinaryMask values width height window offset =
     (let ii = computeIntegralImage values width height;
          wp1 = width + 1
      in raster_fill (replicate (length values) 0) width height
           (\<lambda>x y. let y0 = y - window div 2;
                      y1 = min height (y0 + window);
                      x0 = x - window div 2;
                      x1 = min width (x0 + window);
                      mean = localMean ii x0 y0 x1 y1 wp1
                  in bit_of (y * width + x < length values \<and>
                             real (unat (values ! (y * width + x))) \<ge> max 0 (mean - offset))))"

text \<open>
  One scale of the multi-scale pass of \<open>detectObjects\<close>, with the boxes mapped back to
  the coordinates of the full raster.
\<close>

definition map_back :: "real \<Rightarrow> DetectionBox \<Rightarrow> DetectionBox" where
  "map_back factor b =
     b\<lparr>bbox := \<lparr>box_x = real_of_int (js_round (box_x (bbox b) / factor)),
                 box_y = real_of_int (js_round (box_y (bbox b) / factor)),
                 box_width = max 1 (real_of_int (js_round (box_width (bbox b) / factor))),
                 box_height = max 1 (real_of_int (js_round (box_height (bbox b) / factor)))\<rparr>,
       centroid := (fst (centroid b) / factor, snd (centroid b) / factor)\<rparr>"

definition boxes_at_scale ::
  "uint8 list \<Rightarrow> nat \<Rightarrow> nat \<Rightarrow> ObjectDetectionOptions \<Rightarrow> real \<Rightarrow> DetectionBox list" where
  "boxes_at_scale normalized width height options s =
     (let targetW = nat (max 1 (js_round (real width * s)));
          targetH = nat (max 1 (js_round (real height * s)));
          scaled = (if s = 1 then normalized
                    else resampleNearest normalized width height targetW targetH);
          scaledThreshold = percentile_bytes scaled (thresholdPercentile options);
          msk = applyMorphology (createBinaryMask scaled scaledThreshold) targetW targetH;
          comps = floodFillComponents msk targetW targetH;
          factor = real targetW / real width
      in map (map_back factor) (buildDetectionBoxes comps msk scaled targetW targetH options))"

definition renumber :: "(nat \<Rightarrow> box_id) \<Rightarrow> DetectionBox list \<Rightarrow> DetectionBox list" where
  "renumber tag boxes = map (\<lambda>(b, i). b\<lparr>box_ident := tag (i + 1)\<rparr>) (zip boxes [0..<length boxes])"

text \<open>
  \<open>detectObjects\<close>, from the decoded raster to the list of boxes.  The preview boxes and
  footprints are attached to these boxes afterwards, one by one, and the statistics are
  computed from them; neither changes the list.  The base preview is drawn by
  \<open>canvasFromGray\<close>, as in \<open>analyzeChange\<close>: a raster without pixels ends in an
  \<open>IndexSizeError\<close>.
\<close>

definition detectObjects ::
  "TiffReadResult \<Rightarrow> ObjectDetectionOptions \<Rightarrow> render_error + DetectionBox list" where
  "detectObjects file options =
     (let data = tiff_data file;
          width = tiff_width file;
          height = tiff_height file;
          normalized = normalize data;
          allBoxes = concat (map (boxes_at_scale normalized width height options)
                                 [1, 1 / 2, 1 / 4]);
          boxes = nonMaximumSuppression (renumber Ms allBoxes) (35 / 100);
          averageY = (if boxes \<noteq> []
                      then sum_list (map (\<lambda>b. box_y (bbox b) + box_height (bbox b) / 2) boxes)
                           / real (length boxes)
                      else real height);
          final =
            (if length boxes < 12 \<or> averageY < real height * (2 / 10)
             then
               (let altThreshold = max 0 (thresholdPercentile options - 8);
                    altValue = percentile_bytes normalized altThreshold;
                    altMask = applyMorphology (createBinaryMask normalized altValue) width height;
                    altComponents = floodFillComponents altMask width height;
                    altBoxes = buildDetectionBoxes altComponents altMask normalized width height
                                 (options\<lparr>thresholdPercentile := altThreshold\<rparr>);
                    localMask = applyMorphology (adaptiveBinaryMask normalized width height 64 12)
                                  width height;
                    localComponents = floodFillComponents localMask width height;
                    localBoxes = buildDetectionBoxes localComponents localMask normalized
                                   width height options;
                    merged = boxes @ altBoxes @ localBoxes
                in nonMaximumSuppression (renumber Mg merged) (35 / 100))
             else boxes)
      in if width = 0 \<or> height = 0 then Inl IndexSizeError else Inr final)"
section \<open>Properties of non-maximum suppression\<close>

lemma iou_sym: "iou a b = iou b a"
  by (simp add: iou_def Let_def max.commute min.commute add.commute)

lemma no_overlap_snoc:
  assumes "no_overlap t keep" and "\<forall>k \<in> set keep. iou (bbox b) (bbox k) < t"
  shows "no_overlap t (keep @ [b])"
  unfolding no_overlap_def
proof (intro allI impI)
  fix i j
  assume ij: "i < j \<and> j < length (keep @ [b])"
  show "iou (bbox ((keep @ [b]) ! i)) (bbox ((keep @ [b]) ! j)) < t \<and>
        iou (bbox ((keep @ [b]) ! j)) (bbox ((keep @ [b]) ! i)) < t"
  proof (cases "j < length keep")
    case True
    with ij assms(1) show ?thesis
      by (simp add: no_overlap_def nth_append)
  next
    case False
    with ij have j: "j = length keep" and i: "i < length keep" by simp_all
    from i have "keep ! i \<in> set keep" by simp
    with assms(2) have "iou (bbox b) (bbox (keep ! i)) < t" by blast
    with i j show ?thesis
      by (simp add: nth_append iou_sym)
  qed
qed

lemma nms_loop_no_overlap:
  "no_overlap t keep \<Longrightarrow> no_overlap t (nms_loop xs keep t)"
proof (induction xs arbitrary: keep)
  case Nil
  then show ?case by simp
next
  case (Cons b xs)
  show ?case
  proof (cases "list_ex (\<lambda>k. iou (bbox b) (bbox k) \<ge> t) keep")
    case True
    with Cons show ?thesis by simp
  next
    case False
    then have "\<forall>k \<in> set keep. iou (bbox b) (bbox k) < t"
      by (auto simp: list_ex_iff not_le)
    with Cons.prems have "no_overlap t (keep @ [b])"
      by (rule no_overlap_snoc)
    with Cons.IH False show ?thesis by simp
  qed
qed

lemma nms_loop_subseq:
  "\<exists>ys. nms_loop xs keep t = keep @ ys \<and> subseq ys xs"
proof (induction xs arbitrary: keep)
  case Nil
  then show ?case by simp
next
  case (Cons b xs)
  show ?case
  proof (cases "list_ex (\<lambda>k. iou (bbox b) (bbox k) \<ge> t) keep")
    case True
    from Cons.IH [of keep] obtain ys where "nms_loop xs keep t = keep @ ys" "subseq ys xs"
      by blast
    with True show ?thesis by auto
  next
    case False
    from Cons.IH [of "keep @ [b]"] obtain ys
      where "nms_loop xs (keep @ [b]) t = (keep @ [b]) @ ys" "subseq ys xs"
      by blast
    with False have "nms_loop (b # xs) keep t = keep @ (b # ys) \<and> subseq (b # ys) (b # xs)"
      by simp
    then show ?thesis by blast
  qed
qed

lemma nms_subseq_sorted: "subseq (nonMaximumSuppression boxes t) (sort_by_confidence boxes)"
  using nms_loop_subseq [of "sort_by_confidence boxes" "[]" t]
  by (auto simp: nonMaximumSuppression_def)

lemma subseq_set_le: "subseq ys xs \<Longrightarrow> set ys \<subseteq> set xs"
  by (induction rule: list_emb.induct) auto

lemma subseq_keeps_sorted:
  "subseq ys xs \<Longrightarrow> sorted (map f xs) \<Longrightarrow> sorted (map f ys)"
proof (induction rule: list_emb.induct)
  case (list_emb_Cons xs ys y)
  then show ?case by simp
next
  case (list_emb_Cons2 x y xs ys)
  then have "set xs \<subseteq> set ys" by (simp add: subseq_set_le)
  with list_emb_Cons2 show ?case by auto
qed simp

lemma subseq_mset_le: "subseq ys xs \<Longrightarrow> mset ys \<subseteq># mset xs"
proof (induction rule: list_emb.induct)
  case (list_emb_Cons xs ys y)
  then have "mset xs \<subseteq># mset ys" by simp
  also have "mset ys \<subseteq># add_mset y (mset ys)" by simp
  finally show ?case by simp
qed simp_all

lemma sorted_sort_by_confidence: "sorted (map (\<lambda>b. - confidence b) (sort_by_confidence boxes))"
  by (simp add: sort_by_confidence_def)

text \<open>
  Claim C3.  For every list of boxes and every threshold \<open>t\<close>, the result of
  \<open>nonMaximumSuppression\<close> holds no two boxes whose IoU reaches \<open>t\<close> (in either
  argument order), it is a sub-multiset of the input (every returned box is an input box,
  each input occurrence used at most once), it is sorted by descending confidence, and
  boxes of equal confidence keep the order they have in the input.
\<close>

theorem nms_sound:
  "no_overlap t (nonMaximumSuppression boxes t) \<and>
   mset (nonMaximumSuppression boxes t) \<subseteq># mset boxes \<and>
   sorted (map (\<lambda>b. - confidence b) (nonMaximumSuppression boxes t)) \<and>
   (\<forall>c. subseq (filter (\<lambda>b. confidence b = c) (nonMaximumSuppression boxes t))
               (filter (\<lambda>b. confidence b = c) boxes))"
proof (intro conjI allI)
  have "no_overlap t []" by (simp add: no_overlap_def)
  then show "no_overlap t (nonMaximumSuppression boxes t)"
    unfolding nonMaximumSuppression_def by (rule nms_loop_no_overlap)
next
  have "mset (nonMaximumSuppression boxes t) \<subseteq># mset (sort_by_confidence boxes)"
    by (rule subseq_mset_le [OF nms_subseq_sorted])
  then show "mset (nonMaximumSuppression boxes t) \<subseteq># mset boxes"
    by (simp add: sort_by_confidence_def)
next
  show "sorted (map (\<lambda>b. - confidence b) (nonMaximumSuppression boxes t))"
    by (rule subseq_keeps_sorted [OF nms_subseq_sorted sorted_sort_by_confidence])
next
  fix c
  have "subseq (filter (\<lambda>b. confidence b = c) (nonMaximumSuppression boxes t))
               (filter (\<lambda>b. confidence b = c) (sort_by_confidence boxes))"
    by (rule subseq_filter [OF nms_subseq_sorted])
  moreover have "filter (\<lambda>b. confidence b = c) (sort_by_confidence boxes)
               = filter (\<lambda>b. confidence b = c) boxes"
    using sort_key_stable [of "\<lambda>b. - confidence b" "- c" boxes]
    by (simp add: sort_by_confidence_def)
  ultimately show "subseq (filter (\<lambda>b. confidence b = c) (nonMaximumSuppression boxes t))
               (filter (\<lambda>b. confidence b = c) boxes)"
    by simp
qed

theorem nms_sound_witness:
  "nonMaximumSuppression
     [\<lparr>box_ident = Ms 1, categoryId = Building, confidence = 4/5,
       bbox = \<lparr>box_x = 1, box_y = 1, box_width = 10, box_height = 10\<rparr>,
       areaPixels = 100, centroid = (6, 6)\<rparr>,
      \<lparr>box_ident = Ms 2, categoryId = Bridge, confidence = 4/5,
       bbox = \<lparr>box_x = 20, box_y = 20, box_width = 5, box_height = 5\<rparr>,
       areaPixels = 25, centroid = (22, 22)\<rparr>,
      \<lparr>box_ident = Ms 3, categoryId = Building, confidence = 9/10,
       bbox = \<lparr>box_x = 0, box_y = 0, box_width = 10, box_height = 10\<rparr>,
       areaPixels = 100, centroid = (5, 5)\<rparr>] (7/20)
   = [\<lparr>box_ident = Ms 3, categoryId = Building, confidence = 9/10,
       bbox = \<lparr>box_x = 0, box_y = 0, box_width = 10, box_height = 10\<rparr>,
       areaPixels = 100, centroid = (5, 5)\<rparr>,
      \<lparr>box_ident = Ms 2, categoryId = Bridge, confidence = 4/5,
       bbox = \<lparr>box_x = 20, box_y = 20, box_width = 5, box_height = 5\<rparr>,
       areaPixels = 25, centroid = (22, 22)\<rparr>]
   \<and> (0::nat) < 1 \<and> (1::nat) < 2
   \<and> iou \<lparr>box_x = 0, box_y = 0, box_width = 10, box_height = 10\<rparr>
          \<lparr>box_x = 20, box_y = 20, box_width = 5, box_height = 5\<rparr> < 7/20"
  using nms_sound [of "7/20"
     "[\<lparr>box_ident = Ms 1, categoryId = Building, confidence = 4/5,
       bbox = \<lparr>box_x = 1, box_y = 1, box_width = 10, box_height = 10\<rparr>,
       areaPixels = 100, centroid = (6, 6)\<rparr>,
      \<lparr>box_ident = Ms 2, categoryId = Bridge, confidence = 4/5,
       bbox = \<lparr>box_x = 20, box_y = 20, box_width = 5, box_height = 5\<rparr>,
       areaPixels = 25, centroid = (22, 22)\<rparr>,
      \<lparr>box_ident = Ms 3, categoryId = Building, confidence = 9/10,
       bbox = \<lparr>box_x = 0, box_y = 0, box_width = 10, box_height = 10\<rparr>,
       areaPixels = 100, centroid = (5, 5)\<rparr>]"]
  by (simp add: nonMaximumSuppression_def sort_by_confidence_def iou_def no_overlap_def)


section \<open>Properties of the Otsu segmentation\<close>
















declare otsu_loop.simps [simp del]










section \<open>Non-finite samples\<close>


lemma finite_values_filter: "finite_values (filter isFinite vs) = finite_values vs"
  by (induction vs) (auto simp: finite_values_def split: sample.splits)

lemma sample_sub_not_finite:
  "\<not> isFinite a \<or> \<not> isFinite b \<Longrightarrow> \<not> isFinite (sample_sub a b)"
  by (cases a; cases b) simp_all

lemma sample_abs_finite: "isFinite (sample_abs a) = isFinite a"
  by (cases a) simp_all

lemma normalize_between_not_finite:
  "i < length vs \<Longrightarrow> \<not> isFinite (vs ! i) \<Longrightarrow> normalize_between lo hi vs ! i = 0"
  by (cases "vs ! i") (simp_all add: normalize_between_def Let_def)

lemma absoluteDifference_nth:
  "i < length a \<Longrightarrow>
   absoluteDifference a b ! i
     = sample_abs (sample_sub (if i < length b then b ! i else Fin 0) (a ! i))"
  by (simp add: absoluteDifference_def)

text \<open>
  Claim C4, as stated, fails in the difference: a \<open>NaN\<close> sample is not replaced by 0
  there, the difference is \<open>NaN\<close> where zeroing the sample would give 5.
\<close>

theorem absoluteDifference_counterexample:
  "absoluteDifference [NaN] [Fin 5] = [NaN] \<and>
   absoluteDifference_zeroing [NaN] [Fin 5] = [Fin 5] \<and>
   absoluteDifference [NaN] [Fin 5] \<noteq> absoluteDifference_zeroing [NaN] [Fin 5]"
  by (simp add: absoluteDifference_def absoluteDifference_zeroing_def zero_if_not_finite_def)

text \<open>
  Claim C4, amended.  Non-finite samples are excluded from the percentile computation;
  in the elementwise absolute difference only a missing element of the second array is
  treated as 0, and a non-finite sample in either array makes the difference non-finite;
  in the normalization to bytes a non-finite value maps to 0.
\<close>

theorem non_finite_samples:
  "percentile vs p = percentile (filter isFinite vs) p \<and>
   (\<forall>i < length a.
      absoluteDifference a b ! i
        = sample_abs (sample_sub (if i < length b then b ! i else Fin 0) (a ! i)) \<and>
      (\<not> isFinite (a ! i) \<or> (i < length b \<and> \<not> isFinite (b ! i))
         \<longrightarrow> \<not> isFinite (absoluteDifference a b ! i))) \<and>
   (\<forall>i < length vs. \<not> isFinite (vs ! i) \<longrightarrow> normalizeToUint8 vs ! i = 0)"
proof (intro conjI allI impI)
  show "percentile vs p = percentile (filter isFinite vs) p"
    by (simp add: percentile_def finite_values_filter)
next
  fix i assume "i < length a"
  then show "absoluteDifference a b ! i
        = sample_abs (sample_sub (if i < length b then b ! i else Fin 0) (a ! i))"
    by (rule absoluteDifference_nth)
next
  fix i assume i: "i < length a"
    and nf: "\<not> isFinite (a ! i) \<or> (i < length b \<and> \<not> isFinite (b ! i))"
  then have "\<not> isFinite (sample_sub (if i < length b then b ! i else Fin 0) (a ! i))"
    by (intro sample_sub_not_finite) auto
  with i show "\<not> isFinite (absoluteDifference a b ! i)"
    by (metis absoluteDifference_nth sample_abs_finite)
next
  fix i assume "i < length vs" "\<not> isFinite (vs ! i)"
  then show "normalizeToUint8 vs ! i = 0"
    by (simp add: normalizeToUint8_def normalize_between_not_finite)
qed

theorem non_finite_samples_witness:
  "percentile [Fin 3, NaN, Fin 1, PosInf] 98 = 3 \<and>
   absoluteDifference [Fin 1, NaN, Fin 2] [Fin 4, Fin 5] = [Fin 3, NaN, Fin 2] \<and>
   normalizeToUint8 [Fin 0, PosInf, Fin 10] = [0, 0, 255]"
  using non_finite_samples [of "[Fin 3, NaN, Fin 1, PosInf]" 98 "[Fin 1, NaN, Fin 2]" "[Fin 4, Fin 5]"]
  by (simp add: percentile_def finite_values_def absoluteDifference_def
      normalizeToUint8_def normalize_between_def js_round_def upt_rec)


section \<open>Round trip of the footprint polygon\<close>








section \<open>The pass-through speckle filter\<close>


text \<open>
  Claim C8.  With kind \<open>none\<close>, or any kind and a window size of at most 1,
  \<open>applySpeckleFilter\<close> returns a buffer at a new address whose content equals the
  content of the input buffer, and every buffer that existed before the call, the caller's
  among them, is unchanged.
\<close>

theorem applySpeckleFilter_pass_through:
  assumes "values_ref < length st" and "kind = NoFilter \<or> fsize \<le> 1"
  shows "(case applySpeckleFilter st values_ref width height kind fsize of
            (st', out_ref) \<Rightarrow>
              out_ref \<noteq> values_ref \<and> out_ref < length st' \<and>
              st' ! out_ref = st ! values_ref \<and>
              (\<forall>r < length st. st' ! r = st ! r))"
  using assms by (auto simp: applySpeckleFilter_def speckle_output_def new_Float32Array_def nth_append)

theorem applySpeckleFilter_pass_through_witness:
  "(0::nat) < length [[Fin 1, NaN, Fin 3]] \<and> (Lee = NoFilter \<or> (1::real) \<le> 1) \<and>
   applySpeckleFilter [[Fin 1, NaN, Fin 3]] 0 3 1 Lee 1
     = ([[Fin 1, NaN, Fin 3], [Fin 1, NaN, Fin 3]], 1)"
  using applySpeckleFilter_pass_through [of 0 "[[Fin 1, NaN, Fin 3]]" Lee 1 3 1]
  by (simp add: applySpeckleFilter_def speckle_output_def new_Float32Array_def)



section \<open>Termination of the thinning\<close>


lemma thin_rounds_enough:
  "popcount img < n \<Longrightarrow> thin_rounds n img width height = Some (thin_loop img width height)"
proof (induction n arbitrary: img)
  case 0
  then show ?case by simp
next
  case (Suc n)
  obtain img' changing where r: "thin_round img width height = (img', changing)"
    by (cases "thin_round img width height")
  show ?case
  proof (cases changing)
    case True
    with thin_round_props(2) [OF r] Suc.prems have "popcount img' < n" by simp
    from Suc.IH [OF this] r True show ?thesis
      by (simp add: thin_loop.simps [of img])
  next
    case False
    with r show ?thesis by (simp add: thin_loop.simps [of img])
  qed
qed

text \<open>
  Claim C10.  A round of the outer loop of \<open>zhangSuenThin\<close> that sets \<open>changing\<close> lowers
  the number of set pixels, and a round that leaves \<open>changing\<close> false leaves the image as
  it is and ends the loop; so the loop, cut off after one round more than the mask has set
  pixels, has returned, with the result of \<open>zhangSuenThin\<close>.
\<close>

theorem zhangSuenThin_terminates:
  "(\<forall>img img' changing.
      thin_round img width height = (img', changing) \<longrightarrow>
        (changing \<longrightarrow> popcount img' < popcount img) \<and> (\<not> changing \<longrightarrow> img' = img)) \<and>
   thin_rounds (Suc (popcount msk)) msk width height = Some (zhangSuenThin msk width height)"
proof (intro conjI allI impI)
  fix img img' changing
  assume r: "thin_round img width height = (img', changing)"
  show "popcount img' < popcount img" if changing using thin_round_props(2) [OF r that] .
  show "img' = img" if "\<not> changing" using thin_round_props(3) [OF r that] .
next
  show "thin_rounds (Suc (popcount msk)) msk width height = Some (zhangSuenThin msk width height)"
    by (simp add: thin_rounds_enough zhangSuenThin_def del: thin_rounds.simps)
qed

theorem zhangSuenThin_terminates_witness:
  "thin_round [0, 1, 1, 0, 1, 0, 0, 0, 0] 3 3 = ([0, 1, 1, 0, 0, 0, 0, 0, 0], True) \<and>
   popcount [0, 1, 1, 0, 0, 0, 0, 0, 0] < popcount [0, 1, 1, 0, 1, 0, 0, 0, 0] \<and>
   thin_round [0, 1, 1, 0, 0, 0, 0, 0, 0] 3 3 = ([0, 1, 1, 0, 0, 0, 0, 0, 0], False) \<and>
   zhangSuenThin [0, 1, 1, 0, 1, 0, 0, 0, 0] 3 3 = [0, 1, 1, 0, 0, 0, 0, 0, 0]"
proof -
  have r1: "thin_round [0, 1, 1, 0, 1, 0, 0, 0, 0] 3 3 = ([0, 1, 1, 0, 0, 0, 0, 0, 0], True)"
    by code_simp
  have r2: "thin_round [0, 1, 1, 0, 0, 0, 0, 0, 0] 3 3 = ([0, 1, 1, 0, 0, 0, 0, 0, 0], False)"
    by code_simp
  have p: "popcount [0, 1, 1, 0, 1, 0, 0, 0, 0] = 3" by code_simp
  from zhangSuenThin_terminates [of 3 3 "[0, 1, 1, 0, 1, 0, 0, 0, 0]"]
  have "popcount [0, 1, 1, 0, 0, 0, 0, 0, 0] < popcount [0, 1, 1, 0, 1, 0, 0, 0, 0]"
    and "thin_rounds (Suc (popcount [0, 1, 1, 0, 1, 0, 0, 0, 0])) [0, 1, 1, 0, 1, 0, 0, 0, 0] 3 3
           = Some (zhangSuenThin [0, 1, 1, 0, 1, 0, 0, 0, 0] 3 3)"
    using r1 by blast+
  then show ?thesis using r1 r2 by (simp add: p numeral_3_eq_3)
qed


section \<open>The raster loop and the window\<close>

lemma row_fill_nth:
  "length (foldl (\<lambda>out x. out[b + x := f x]) out [0..<k]) = length out \<and>
   (\<forall>i < length out. foldl (\<lambda>out x. out[b + x := f x]) out [0..<k] ! i
        = (if b \<le> i \<and> i < b + k then f (i - b) else out ! i))"
proof (induction k)
  case 0
  then show ?case by auto
next
  case (Suc k)
  let ?p = "foldl (\<lambda>out x. out[b + x := f x]) out [0..<k]"
  from Suc have len: "length ?p = length out"
    and nth: "\<And>i. i < length out \<Longrightarrow> ?p ! i = (if b \<le> i \<and> i < b + k then f (i - b) else out ! i)"
    by simp_all
  have unf: "foldl (\<lambda>out x. out[b + x := f x]) out [0..<Suc k] = ?p[b + k := f k]" by simp
  show ?case
  proof (intro conjI allI impI)
    show "length (foldl (\<lambda>out x. out[b + x := f x]) out [0..<Suc k]) = length out"
      by (simp only: unf length_list_update len)
  next
    fix i assume i: "i < length out"
    show "foldl (\<lambda>out x. out[b + x := f x]) out [0..<Suc k] ! i
            = (if b \<le> i \<and> i < b + Suc k then f (i - b) else out ! i)"
    proof (cases "i = b + k")
      case True
      with i len have "?p[b + k := f k] ! i = f k" by simp
      with True show ?thesis by (simp only: unf) simp
    next
      case False
      then have "?p[b + k := f k] ! i = ?p ! i" by simp
      with nth [OF i] False show ?thesis by (simp only: unf) auto
    qed
  qed
qed

lemma raster_fill_length [simp]: "length (raster_fill out w h f) = length out"
proof -
  have "length (foldl (\<lambda>out y. foldl (\<lambda>out x. out[y * w + x := f x y]) out [0..<w]) out [0..<k])
          = length out" for k
  proof (induction k)
    case 0
    then show ?case by simp
  next
    case (Suc k)
    then show ?case using row_fill_nth [of "k * w" "\<lambda>x. f x k"] by simp
  qed
  then show ?thesis by (simp add: raster_fill_def)
qed

lemma raster_rows_nth:
  "i < length out \<Longrightarrow>
   foldl (\<lambda>out y. foldl (\<lambda>out x. out[y * w + x := f x y]) out [0..<w]) out [0..<k] ! i
     = (if i < k * w then f (i mod w) (i div w) else out ! i)"
proof (induction k)
  case 0
  then show ?case by simp
next
  case (Suc k)
  let ?prev = "foldl (\<lambda>out y. foldl (\<lambda>out x. out[y * w + x := f x y]) out [0..<w]) out [0..<k]"
  have len: "length ?prev = length out"
    using raster_fill_length [of out w k f] by (simp add: raster_fill_def)
  from row_fill_nth [of "k * w" "\<lambda>x. f x k" ?prev w] Suc.prems len
  have step: "foldl (\<lambda>out x. out[k * w + x := f x k]) ?prev [0..<w] ! i
        = (if k * w \<le> i \<and> i < k * w + w then f (i - k * w) k else ?prev ! i)"
    by simp
  show ?case
  proof (cases "k * w \<le> i \<and> i < k * w + w")
    case True
    then have "i div w = k" and "i mod w = i - k * w"
      by (auto simp: div_nat_eqI mod_nat_eqI mult.commute)
    with True step show ?thesis by simp
  next
    case False
    with step Suc.IH [OF Suc.prems] show ?thesis by auto
  qed
qed

lemma raster_fill_nth:
  "i < length out \<Longrightarrow>
   raster_fill out w h f ! i = (if i < h * w then f (i mod w) (i div w) else out ! i)"
  unfolding raster_fill_def by (rule raster_rows_nth)

lemma window_taps_iff:
  "(xx, yy) \<in> set (window_taps w h r x y) \<longleftrightarrow>
     xx < w \<and> yy < h \<and> \<bar>int xx - int x\<bar> \<le> r \<and> \<bar>int yy - int y\<bar> \<le> r"
proof
  assume "(xx, yy) \<in> set (window_taps w h r x y)"
  then show "xx < w \<and> yy < h \<and> \<bar>int xx - int x\<bar> \<le> r \<and> \<bar>int yy - int y\<bar> \<le> r"
    by (auto simp: window_taps_def Let_def split: if_splits)
next
  assume a: "xx < w \<and> yy < h \<and> \<bar>int xx - int x\<bar> \<le> r \<and> \<bar>int yy - int y\<bar> \<le> r"
  let ?dy = "int yy - int y" and ?dx = "int xx - int x"
  have dy: "?dy \<in> set [- r..r]" and dx: "?dx \<in> set [- r..r]" using a by auto
  have "(xx, yy) \<in> set (concat (map (\<lambda>dx. let xx = int x + dx in
          if xx < 0 \<or> xx \<ge> int w then [] else [(nat xx, nat (int y + ?dy))]) [- r..r]))"
    using a dx by (auto simp: Let_def intro!: bexI [of _ ?dx])
  then show "(xx, yy) \<in> set (window_taps w h r x y)"
    using a dy unfolding window_taps_def
    by (auto simp: Let_def intro!: bexI [of _ ?dy])
qed


section \<open>Dilation and erosion, pixel by pixel\<close>


lemma adjacent_sym: "adjacent w r i j \<Longrightarrow> adjacent w r j i"
  by (auto simp: adjacent_def)

lemma tap_exists_iff:
  assumes "i < h * w"
  shows "(\<exists>t \<in> set (window_taps w h r (i mod w) (i div w)). P (snd t * w + fst t))
           \<longleftrightarrow> (\<exists>j < h * w. adjacent w r i j \<and> P j)"
proof
  assume "\<exists>t \<in> set (window_taps w h r (i mod w) (i div w)). P (snd t * w + fst t)"
  then obtain xx yy where t: "(xx, yy) \<in> set (window_taps w h r (i mod w) (i div w))"
    and p: "P (yy * w + xx)" by auto
  from t have b: "xx < w" "yy < h" "\<bar>int xx - int (i mod w)\<bar> \<le> r" "\<bar>int yy - int (i div w)\<bar> \<le> r"
    by (simp_all add: window_taps_iff)
  have "yy * w + xx < h * w"
  proof -
    have "yy * w + xx < yy * w + w" using b(1) by simp
    also have "\<dots> = Suc yy * w" by simp
    also have "\<dots> \<le> h * w" using b(2) by (intro mult_le_mono1) simp
    finally show ?thesis .
  qed
  moreover have "(yy * w + xx) mod w = xx" "(yy * w + xx) div w = yy" using b(1) by simp_all
  ultimately show "\<exists>j < h * w. adjacent w r i j \<and> P j"
    using p b by (intro exI [of _ "yy * w + xx"]) (simp add: adjacent_def)
next
  assume "\<exists>j < h * w. adjacent w r i j \<and> P j"
  then obtain j where j: "j < h * w" "adjacent w r i j" "P j" by blast
  from j(1) have w: "0 < w" by (cases w) simp_all
  have "j div w < h" using j(1) w by (simp add: less_mult_imp_div_less)
  moreover have "j mod w < w" using w by simp
  ultimately have "(j mod w, j div w) \<in> set (window_taps w h r (i mod w) (i div w))"
    using j(2) by (simp add: window_taps_iff adjacent_def)
  moreover have "P (snd (j mod w, j div w) * w + fst (j mod w, j div w))" using j(3) by simp
  ultimately show "\<exists>t \<in> set (window_taps w h r (i mod w) (i div w)). P (snd t * w + fst t)"
    by blast
qed

lemma tap_all_iff:
  assumes "i < h * w"
  shows "(\<forall>t \<in> set (window_taps w h r (i mod w) (i div w)). P (snd t * w + fst t))
           \<longleftrightarrow> (\<forall>j < h * w. adjacent w r i j \<longrightarrow> P j)"
  using tap_exists_iff [OF assms, of r "\<lambda>j. \<not> P j"] by blast

lemma dilate_length [simp]: "length (dilate m w h r) = length m"
  by (simp add: dilate_def)

lemma erode_length [simp]: "length (erode m w h r) = length m"
  by (simp add: erode_def)

lemma dilate_nth:
  assumes "0 < r" and "i < length m"
  shows "dilate m w h r ! i
           = bit_of (i < h * w \<and> (\<exists>j < h * w. adjacent w r i j \<and> truthy_at m j))"
proof (cases "i < h * w")
  case True
  have "dilate m w h r ! i
      = bit_of (list_ex (\<lambda>(xx, yy). truthy_at m (yy * w + xx)) (window_taps w h r (i mod w) (i div w)))"
    using assms True by (simp add: dilate_def raster_fill_nth)
  also have "list_ex (\<lambda>(xx, yy). truthy_at m (yy * w + xx)) (window_taps w h r (i mod w) (i div w))
      \<longleftrightarrow> (\<exists>t \<in> set (window_taps w h r (i mod w) (i div w)). truthy_at m (snd t * w + fst t))"
    by (simp add: list_ex_iff case_prod_beta)
  also have "\<dots> \<longleftrightarrow> (\<exists>j < h * w. adjacent w r i j \<and> truthy_at m j)"
    using True by (rule tap_exists_iff)
  finally show ?thesis using True by simp
next
  case False
  with assms show ?thesis by (simp add: dilate_def raster_fill_nth bit_of_def)
qed

lemma erode_nth:
  assumes "0 < r" and "i < length m"
  shows "erode m w h r ! i
           = bit_of (i < h * w \<and> (\<forall>j < h * w. adjacent w r i j \<longrightarrow> truthy_at m j))"
proof (cases "i < h * w")
  case True
  have "erode m w h r ! i
      = bit_of (list_all (\<lambda>(xx, yy). truthy_at m (yy * w + xx)) (window_taps w h r (i mod w) (i div w)))"
    using assms True by (simp add: erode_def raster_fill_nth)
  also have "list_all (\<lambda>(xx, yy). truthy_at m (yy * w + xx)) (window_taps w h r (i mod w) (i div w))
      \<longleftrightarrow> (\<forall>t \<in> set (window_taps w h r (i mod w) (i div w)). truthy_at m (snd t * w + fst t))"
    by (simp add: list_all_iff case_prod_beta)
  also have "\<dots> \<longleftrightarrow> (\<forall>j < h * w. adjacent w r i j \<longrightarrow> truthy_at m j)"
    using True by (rule tap_all_iff)
  finally show ?thesis using True by simp
next
  case False
  with assms show ?thesis by (simp add: erode_def raster_fill_nth bit_of_def)
qed

lemma truthy_bit_of: "i < length m \<Longrightarrow> m ! i = bit_of P \<Longrightarrow> truthy_at m i = P"
  by (simp add: truthy_at_def bit_of_def)

lemma dilate_truthy:
  assumes "0 < r"
  shows "truthy_at (dilate m w h r) i \<longleftrightarrow>
           i < length m \<and> i < h * w \<and> (\<exists>j < h * w. adjacent w r i j \<and> truthy_at m j)"
proof (cases "i < length m")
  case True
  then have "i < length (dilate m w h r)" by simp
  from truthy_bit_of [OF this dilate_nth [OF assms True]] True show ?thesis by simp
next
  case False
  then show ?thesis by (simp add: truthy_at_def [of "dilate m w h r"])
qed

lemma erode_truthy:
  assumes "0 < r"
  shows "truthy_at (erode m w h r) i \<longleftrightarrow>
           i < length m \<and> i < h * w \<and> (\<forall>j < h * w. adjacent w r i j \<longrightarrow> truthy_at m j)"
proof (cases "i < length m")
  case True
  then have "i < length (erode m w h r)" by simp
  from truthy_bit_of [OF this erode_nth [OF assms True]] True show ?thesis by simp
next
  case False
  then show ?thesis by (simp add: truthy_at_def [of "erode m w h r"])
qed

lemma truthy_length: "truthy_at m i \<Longrightarrow> i < length m"
  by (simp add: truthy_at_def)

lemma dilate_cong:
  assumes "0 < r" "length a = length b"
    and "\<And>j. truthy_at a j = truthy_at b j"
  shows "dilate a w h r = dilate b w h r"
proof (rule nth_equalityI)
  show "length (dilate a w h r) = length (dilate b w h r)" using assms(2) by simp
next
  fix i assume "i < length (dilate a w h r)"
  then have i: "i < length a" "i < length b" using assms(2) by simp_all
  show "dilate a w h r ! i = dilate b w h r ! i"
    by (simp add: dilate_nth [OF assms(1) i(1)] dilate_nth [OF assms(1) i(2)] assms(3))
qed

lemma erode_cong:
  assumes "0 < r" "length a = length b"
    and "\<And>j. truthy_at a j = truthy_at b j"
  shows "erode a w h r = erode b w h r"
proof (rule nth_equalityI)
  show "length (erode a w h r) = length (erode b w h r)" using assms(2) by simp
next
  fix i assume "i < length (erode a w h r)"
  then have i: "i < length a" "i < length b" using assms(2) by simp_all
  show "erode a w h r ! i = erode b w h r ! i"
    by (simp add: erode_nth [OF assms(1) i(1)] erode_nth [OF assms(1) i(2)] assms(3))
qed

text \<open>
  Eroding the opening gives the erosion back, and dilating the closing gives the dilation
  back: the window relation is symmetric, and a set pixel lies inside the array.
\<close>

lemma erode_dilate_erode:
  assumes r: "0 < r"
  shows "truthy_at (erode (dilate (erode m w h r) w h r) w h r) i = truthy_at (erode m w h r) i"
proof -
  let ?E = "erode m w h r"
  let ?D = "dilate ?E w h r"
  note E = erode_truthy [OF r, of m w h]
  note D = dilate_truthy [OF r, of ?E w h]
  note EDE = erode_truthy [OF r, of ?D w h]
  show ?thesis
  proof
    assume a: "truthy_at (erode ?D w h r) i"
    then have i: "i < length m" "i < h * w" by (simp_all add: EDE)
    have "truthy_at m k" if k: "k < h * w" "adjacent w r i k" for k
    proof -
      from a k have "truthy_at ?D k" by (simp add: EDE)
      then obtain l where l: "l < h * w" "adjacent w r k l" "truthy_at ?E l" by (auto simp: D)
      from l(2) have "adjacent w r l k" by (rule adjacent_sym)
      with l(3) k(1) show ?thesis by (simp add: E)
    qed
    with i show "truthy_at ?E i" by (simp add: E)
  next
    assume a: "truthy_at ?E i"
    then have i: "i < length m" "i < h * w"
      and nb: "\<And>k. k < h * w \<Longrightarrow> adjacent w r i k \<Longrightarrow> truthy_at m k"
      by (simp_all add: E)
    have "truthy_at ?D k" if k: "k < h * w" "adjacent w r i k" for k
    proof -
      from nb [OF k] have "k < length m" by (rule truthy_length)
      moreover from k(2) have "adjacent w r k i" by (rule adjacent_sym)
      ultimately show ?thesis using a i k(1) by (auto simp: D)
    qed
    with i show "truthy_at (erode ?D w h r) i" by (simp add: EDE)
  qed
qed

lemma dilate_erode_dilate_le:
  assumes r: "0 < r" and a: "truthy_at (dilate (erode (dilate m w h r) w h r) w h r) i"
  shows "truthy_at (dilate m w h r) i"
proof -
  let ?D = "dilate m w h r"
  let ?E = "erode ?D w h r"
  from a obtain k where i: "i < h * w"
    and k: "k < h * w" "adjacent w r i k" "truthy_at ?E k"
    by (auto simp: dilate_truthy [OF r, of ?E w h])
  from k(2) have "adjacent w r k i" by (rule adjacent_sym)
  with k(3) i show ?thesis by (simp add: erode_truthy [OF r, of ?D w h])
qed

lemma closing_twice:
  assumes r: "0 < r"
  shows "truthy_at (erode (dilate (erode (dilate m w h r) w h r) w h r) w h r) i
           = truthy_at (erode (dilate m w h r) w h r) i"
proof -
  let ?D = "dilate m w h r"
  let ?E = "erode ?D w h r"
  let ?DE = "dilate ?E w h r"
  note E = erode_truthy [OF r, of ?D w h]
  note DE = dilate_truthy [OF r, of ?E w h]
  note EDE = erode_truthy [OF r, of ?DE w h]
  show ?thesis
  proof
    assume a: "truthy_at (erode ?DE w h r) i"
    then have i: "i < length m" "i < h * w" by (simp_all add: EDE)
    have "truthy_at ?D k" if k: "k < h * w" "adjacent w r i k" for k
    proof -
      from a k have "truthy_at ?DE k" by (simp add: EDE)
      then show ?thesis by (rule dilate_erode_dilate_le [OF r])
    qed
    with i show "truthy_at ?E i" by (simp add: E)
  next
    assume a: "truthy_at ?E i"
    then have i: "i < length m" "i < h * w"
      and nb: "\<And>k. k < h * w \<Longrightarrow> adjacent w r i k \<Longrightarrow> truthy_at ?D k"
      by (simp_all add: E)
    have "truthy_at ?DE k" if k: "k < h * w" "adjacent w r i k" for k
    proof -
      from nb [OF k] have "k < length ?D" by (rule truthy_length)
      then have "k < length m" by simp
      moreover from k(2) have "adjacent w r k i" by (rule adjacent_sym)
      ultimately show ?thesis using a i k(1) by (auto simp: DE)
    qed
    with i show "truthy_at (erode ?DE w h r) i" by (simp add: EDE)
  qed
qed

text \<open>
  Claim C7.  For every mask, all dimensions and every radius above 0, the opening
  \<open>dilate (erode mask)\<close> and the closing \<open>erode (dilate mask)\<close> are idempotent: applied
  twice with the same radius they give the mask they give once.
\<close>

theorem opening_closing_idempotent:
  assumes "0 < radius"
  shows "morph_opening (morph_opening msk width height radius) width height radius
           = morph_opening msk width height radius \<and>
         morph_closing (morph_closing msk width height radius) width height radius
           = morph_closing msk width height radius"
proof -
  let ?E = "erode msk width height radius"
  let ?D = "dilate msk width height radius"
  have "dilate (erode (dilate ?E width height radius) width height radius) width height radius
          = dilate ?E width height radius"
    using assms by (rule dilate_cong) (simp_all add: erode_dilate_erode [OF assms])
  moreover
  have "erode (dilate (erode ?D width height radius) width height radius) width height radius
          = erode ?D width height radius"
  proof (rule nth_equalityI)
    show "length (erode (dilate (erode ?D width height radius) width height radius) width height radius)
            = length (erode ?D width height radius)" by simp
  next
    fix i
    assume "i < length (erode (dilate (erode ?D width height radius) width height radius)
                   width height radius)"
    then have i: "i < length msk" by simp
    let ?C = "erode ?D width height radius"
    let ?CC = "erode (dilate ?C width height radius) width height radius"
    have t: "truthy_at ?CC i = truthy_at ?C i" using assms by (rule closing_twice)
    have c: "?C ! i = bit_of (truthy_at ?C i)"
      using erode_nth [OF assms, of i ?D width height] erode_truthy [OF assms, of ?D width height i] i
      by simp
    have cc: "?CC ! i = bit_of (truthy_at ?CC i)"
      using erode_nth [OF assms, of i "dilate ?C width height radius" width height]
        erode_truthy [OF assms, of "dilate ?C width height radius" width height i] i
      by simp
    show "?CC ! i = ?C ! i" by (simp only: c cc t)
  qed
  ultimately show ?thesis by (simp add: morph_opening_def morph_closing_def)
qed

theorem opening_closing_idempotent_witness:
  "(0::int) < 1 \<and>
   morph_opening [1, 1, 1, 0, 1, 1, 1, 0, 1, 1, 1, 0, 0, 0, 0, 1] 4 4 1
     = [1, 1, 1, 0, 1, 1, 1, 0, 1, 1, 1, 0, 0, 0, 0, 0] \<and>
   morph_opening [1, 1, 1, 0, 1, 1, 1, 0, 1, 1, 1, 0, 0, 0, 0, 0] 4 4 1
     = [1, 1, 1, 0, 1, 1, 1, 0, 1, 1, 1, 0, 0, 0, 0, 0] \<and>
   morph_closing (morph_closing [1, 1, 1, 0, 1, 1, 1, 0, 1, 1, 1, 0, 0, 0, 0, 1] 4 4 1) 4 4 1
     = morph_closing [1, 1, 1, 0, 1, 1, 1, 0, 1, 1, 1, 0, 0, 0, 0, 1] 4 4 1"
proof -
  have o: "morph_opening [1, 1, 1, 0, 1, 1, 1, 0, 1, 1, 1, 0, 0, 0, 0, 1] 4 4 1
     = [1, 1, 1, 0, 1, 1, 1, 0, 1, 1, 1, 0, 0, 0, 0, 0]"
    by code_simp
  have r: "(0::int) < 1" by simp
  from opening_closing_idempotent [OF r, of "[1, 1, 1, 0, 1, 1, 1, 0, 1, 1, 1, 0, 0, 0, 0, 1]" 4 4] o
  show ?thesis by simp
qed


section \<open>The linearity override\<close>


lemma clamp01_ge: "a \<le> 1 \<Longrightarrow> a \<le> clamp01 (max s a)"
  by (simp add: clamp_def)

text \<open>
  Given the linearity the source computes, the override itself is as described: above
  0.25 with a major axis of at least 20 it forces bridge or border-wall and lifts the shape
  score to the floor of that category.
\<close>

lemma linearity_override_forced:
  assumes "linearity > 25 / 100" and "major \<ge> 20" and "linearity \<le> 1"
  shows "fst (linearity_override linearity major aspectRatio shapeScore)
           = Some (if aspectRatio > 3 \<or> major > 50 then Bridge else BorderWall)"
    and "aspectRatio > 3 \<or> major > 50 \<Longrightarrow>
           6 / 10 + linearity * (4 / 10) \<le> snd (linearity_override linearity major aspectRatio shapeScore)"
    and "\<not> (aspectRatio > 3 \<or> major > 50) \<Longrightarrow>
           55 / 100 + linearity * (35 / 100) \<le> snd (linearity_override linearity major aspectRatio shapeScore)"
  using assms by (auto simp: linearity_override_def clamp_def)

text \<open>
  Claim C6 at the vertical line.  Its skeleton is the whole line, so the ratio of skeleton
  pixels to component pixels is 1; its major axis is 20 and its aspect ratio 20.  The
  source counts the skeleton at the indices \<open>idx - bbox.y * width - bbox.x\<close>, which use the
  stride of the raster in a local mask of stride \<open>bbox.width\<close>: it finds 4 of the 20 pixels,
  the linearity is 1/5, the override is not applied and the box keeps the category of the
  classifier.
\<close>

theorem vertical_line_not_forced:
  "skeleton_linearity_ratio vline_pixels vline_mask 5 20 = 1 \<and>
   component_linearity vline_pixels vline_mask 5 20 = 1 / 5 \<and>
   map (\<lambda>b. (categoryId b, bbox b))
       (buildDetectionBoxes [vline_pixels] vline_mask vline_data 5 20
          \<lparr>thresholdPercentile = 95, minAreaPixels = 10, maxDetections = Some 200\<rparr>)
     = [(UrbanFeature, \<lparr>box_x = 2, box_y = 0, box_width = 1, box_height = 20\<rparr>)]"
proof -
  have a: "skeleton_linearity_ratio vline_pixels vline_mask 5 20 = 1" by code_simp
  have b: "component_linearity vline_pixels vline_mask 5 20 = 1 / 5" by code_simp
  have c: "map (\<lambda>b. (categoryId b, bbox b))
       (buildDetectionBoxes [vline_pixels] vline_mask vline_data 5 20
          \<lparr>thresholdPercentile = 95, minAreaPixels = 10, maxDetections = Some 200\<rparr>)
     = [(UrbanFeature, \<lparr>box_x = 2, box_y = 0, box_width = 1, box_height = 20\<rparr>)]"
    by code_simp
  from a b c show ?thesis by simp
qed


section \<open>The change percentage\<close>


lemma fillHoles_length [simp]: "length (fillHoles m w h) = length m"
  by (simp add: fillHoles_def Let_def)

lemma clear_list_length: "length (foldl (\<lambda>out idx. out[idx := v]) out xs) = length out"
  by (induction xs arbitrary: out) simp_all

lemma remove_step_length: "length (snd (remove_step m w a st i)) = length (snd st)"
  by (cases st) (auto simp: remove_step_def clear_list_length split: prod.splits)

lemma remove_steps_length: "length (snd (foldl (remove_step m w a) st xs)) = length (snd st)"
  by (induction xs arbitrary: st) (simp_all add: remove_step_length)

lemma removeSmallComponents_length [simp]: "length (removeSmallComponents m w h a) = length m"
  by (simp add: removeSmallComponents_def remove_steps_length)

lemma postProcessMask_length [simp]: "length (postProcessMask m w h opts) = length m"
  by (simp add: postProcessMask_def Let_def)

lemma normalize_between_length [simp]: "length (normalize_between lo hi vs) = length vs"
  by (simp add: normalize_between_def Let_def)

lemma absoluteDifference_length [simp]: "length (absoluteDifference a b) = length a"
  by (simp add: absoluteDifference_def)

lemma speckle_output_length [simp]: "length (speckle_output vs w h kind fsize) = length vs"
  by (simp add: speckle_output_def speckle_filtered_def Let_def)







text \<open>A raster without pixels gives no result.\<close>

lemma analyzeChange_empty_raster:
  "analyzeChange \<lparr>tiff_width = 0, tiff_height = 0, tiff_data = [], tiff_bbox = None, tiff_pixelScale = None\<rparr>
        \<lparr>tiff_width = 0, tiff_height = 0, tiff_data = [], tiff_bbox = None, tiff_pixelScale = None\<rparr>
        options
   = Inl IndexSizeError"
  by (simp add: analyzeChange_def Let_def)


section \<open>The cap on the number of detections\<close>


text \<open>
  One call of \<open>buildDetectionBoxes\<close> does stop at \<open>maxDetections\<close>, for a whole number
  above 0.
\<close>

lemma detection_loop_cap:
  assumes "maxDetections options = Some (real k)" and "length boxes < k"
  shows "length (detection_loop comps msk data width height options t boxes) \<le> k"
  using assms(2)
proof (induction comps arbitrary: boxes)
  case Nil
  then show ?case by simp
next
  case (Cons pixels rest)
  show ?case
  proof (cases "detection_box pixels msk data width height options t (length boxes + 1)")
    case None
    with Cons show ?thesis by simp
  next
    case (Some box)
    show ?thesis
    proof (cases "Suc (length boxes) < k")
      case True
      then have "length (boxes @ [box]) < k" by simp
      from Cons.IH [OF this] True Some assms(1) show ?thesis by (simp add: Let_def)
    next
      case False
      with Cons.prems have "Suc (length boxes) = k" by simp
      with Some assms(1) show ?thesis by (auto simp: Let_def)
    qed
  qed
qed

lemma buildDetectionBoxes_cap:
  "maxDetections options = Some (real k) \<Longrightarrow> 0 < k \<Longrightarrow>
   length (buildDetectionBoxes comps msk data width height options) \<le> k"
  unfolding buildDetectionBoxes_def by (rule detection_loop_cap) simp_all

text \<open>
  Claim C5 at a raster of 3 by 1 pixels with \<open>maxDetections = 1\<close>.  Each of the five
  calls of \<open>buildDetectionBoxes\<close> (three scales, the lower percentile, the adaptive mask)
  returns one box; \<open>detectObjects\<close> merges them by non-maximum suppression only, and
  three boxes of small mutual overlap remain.
\<close>

theorem detectObjects_exceeds_maxDetections:
  "map_sum id (map (\<lambda>b. (box_ident b, bbox b)))
     (detectObjects
        \<lparr>tiff_width = 3, tiff_height = 1, tiff_data = [Fin 0, Fin 0, Fin 9],
         tiff_bbox = None, tiff_pixelScale = None\<rparr>
        \<lparr>thresholdPercentile = 50, minAreaPixels = 1, maxDetections = Some 1\<rparr>)
   = Inr [(Mg 4, \<lparr>box_x = 2, box_y = 0, box_width = 1, box_height = 1\<rparr>),
      (Mg 1, \<lparr>box_x = 0, box_y = 0, box_width = 3, box_height = 1\<rparr>),
      (Mg 2, \<lparr>box_x = 0, box_y = 0, box_width = 3, box_height = 3\<rparr>)]"
  by code_simp

end
